theory Spec2Isabelle
  imports Complex_Main "HOL-Library.Multiset"
begin

section \<open>JavaScript values used by export-salaries.mjs\<close>

subsection \<open>Numbers\<close>

text \<open>
  A salary is a JavaScript number. \<open>NaN\<close> is kept out of the type: a computation that
  can give \<open>NaN\<close> returns \<open>number option\<close> with \<open>None\<close> for it. Every number the
  program stores in a \<open>Map\<close> has gone through \<open>parseFloat(x) || 0\<close> and \<open>Math.max\<close>
  of numbers that are not \<open>NaN\<close>, so no \<open>Map\<close> of the program holds \<open>NaN\<close>.
  A finite number is carried by its exact value; the rounding of a decimal literal to
  binary64 is not modelled. \<open>+0\<close> and \<open>-0\<close> are one value: the program only tests
  them with \<open>||\<close>, \<open>>\<close>, \<open><=\<close> and \<open>Math.max\<close> against a positive number.
\<close>

datatype number = NegInfinity | Finite rat | PosInfinity

instantiation number :: "{zero, linorder}"
begin

definition zero_number :: number where
  "zero_number = Finite 0"

fun less_eq_number :: "number \<Rightarrow> number \<Rightarrow> bool" where
  "less_eq_number NegInfinity y = True"
| "less_eq_number (Finite a) NegInfinity = False"
| "less_eq_number (Finite a) (Finite b) = (a \<le> b)"
| "less_eq_number (Finite a) PosInfinity = True"
| "less_eq_number PosInfinity PosInfinity = True"
| "less_eq_number PosInfinity y = False"

definition less_number :: "number \<Rightarrow> number \<Rightarrow> bool" where
  "less_number x y = (x \<le> y \<and> \<not> y \<le> x)"

instance
proof
  fix x y z :: number
  show "(x < y) = (x \<le> y \<and> \<not> y \<le> x)"
    by (simp add: less_number_def)
  show "x \<le> x"
    by (cases x) simp_all
  show "x \<le> y \<Longrightarrow> y \<le> z \<Longrightarrow> x \<le> z"
    by (cases x; cases y; cases z) simp_all
  show "x \<le> y \<Longrightarrow> y \<le> x \<Longrightarrow> x = y"
    by (cases x; cases y) simp_all
  show "x \<le> y \<or> y \<le> x"
    by (cases x; cases y) auto
qed

end

text \<open>\<open>x || 0\<close> on a number that may be \<open>undefined\<close> or \<open>NaN\<close> (both \<open>None\<close>):
  the falsy values \<open>undefined\<close>, \<open>NaN\<close> and \<open>0\<close> give \<open>0\<close>.\<close>

definition or_zero :: "number option \<Rightarrow> number" where
  "or_zero x = (case x of None \<Rightarrow> 0 | Some v \<Rightarrow> if v = 0 then 0 else v)"

text \<open>\<open>b - a\<close> on numbers: \<open>NaN\<close> (\<open>None\<close>) for two infinities of one sign.\<close>

fun minus_number :: "number \<Rightarrow> number \<Rightarrow> number option" where
  "minus_number (Finite b) (Finite a) = Some (Finite (b - a))"
| "minus_number PosInfinity PosInfinity = None"
| "minus_number NegInfinity NegInfinity = None"
| "minus_number PosInfinity a = Some PosInfinity"
| "minus_number NegInfinity a = Some NegInfinity"
| "minus_number (Finite b) PosInfinity = Some NegInfinity"
| "minus_number (Finite b) NegInfinity = Some PosInfinity"

subsection \<open>Strings\<close>

text \<open>
  A string is the list of its code units, here the code units below 256. The white space
  of \<open>trim\<close> and of \<open>\s\<close> among them is tab, line feed, vertical tab, form feed,
  carriage return, space and no-break space; the line terminators, which \<open>.\<close> does not
  match, are line feed and carriage return.
\<close>

definition is_space :: "char \<Rightarrow> bool" where
  "is_space c = (c \<in> set [CHR 0x09, CHR 0x0A, CHR 0x0B, CHR 0x0C, CHR 0x0D, CHR 0x20, CHR 0xA0])"

definition is_line_terminator :: "char \<Rightarrow> bool" where
  "is_line_terminator c = (c \<in> set [CHR 0x0A, CHR 0x0D])"

definition trim :: "string \<Rightarrow> string" where
  "trim s = rev (dropWhile is_space (rev (dropWhile is_space s)))"

text \<open>\<open>s.split(sep)\<close> for a separator of one character: the pieces between the
  separators, one piece more than there are separators.\<close>

fun split :: "char \<Rightarrow> string \<Rightarrow> string list" where
  "split sep [] = [[]]"
| "split sep (c # cs) =
     (if c = sep then [] # split sep cs
      else (case split sep cs of [] \<Rightarrow> [[c]] | piece # pieces \<Rightarrow> (c # piece) # pieces))"

text \<open>
  \<open>toUpperCase\<close> on the letters a to z. JavaScript changes a few other code units too
  (\<open>\<mu>\<close>, the sharp s, the accented letters), to code units that are not ASCII or to S:
  never to a letter of the position names that \<open>normalizePosition\<close> compares with.
\<close>

definition upper_char :: "char \<Rightarrow> char" where
  "upper_char c =
     (case map_of (zip ''abcdefghijklmnopqrstuvwxyz'' ''ABCDEFGHIJKLMNOPQRSTUVWXYZ'') c of
        None \<Rightarrow> c
      | Some u \<Rightarrow> u)"

definition toUpperCase :: "string \<Rightarrow> string" where
  "toUpperCase s = map upper_char s"

subsection \<open>parseFloat\<close>

text \<open>
  \<open>parseFloat(x)\<close>: \<open>x\<close> as a string (\<open>None\<close> is \<open>undefined\<close> or \<open>null\<close>, whose
  strings hold no number), white space skipped at the start, then the longest prefix that
  is a decimal literal: a sign, and \<open>Infinity\<close> or digits with a fraction and a complete
  exponent part. \<open>None\<close> is \<open>NaN\<close>: no prefix is a literal.
\<close>

definition is_digit :: "char \<Rightarrow> bool" where
  "is_digit c = (c \<in> set ''0123456789'')"

definition digit_value :: "char \<Rightarrow> nat" where
  "digit_value c = of_char c - 48"

definition digits_value :: "string \<Rightarrow> nat" where
  "digits_value ds = foldl (\<lambda>n c. 10 * n + digit_value c) 0 ds"

text \<open>The exponent that a text starts with: \<open>e\<close> or \<open>E\<close>, a sign or none, and digits;
  \<open>0\<close> when the text does not start with a complete exponent part.\<close>

definition exponent_part :: "string \<Rightarrow> int" where
  "exponent_part s =
     (case s of
        [] \<Rightarrow> 0
      | e # r \<Rightarrow>
          if e = CHR ''e'' \<or> e = CHR ''E''
          then (let negative = (r \<noteq> [] \<and> hd r = CHR ''-'');
                    signed = (r \<noteq> [] \<and> (hd r = CHR ''-'' \<or> hd r = CHR ''+''));
                    ds = takeWhile is_digit (if signed then tl r else r)
                in if ds = [] then 0
                   else if negative then - int (digits_value ds) else int (digits_value ds))
          else 0)"

definition scale10 :: "rat \<Rightarrow> int \<Rightarrow> rat" where
  "scale10 x e = (if 0 \<le> e then x * 10 ^ nat e else x / 10 ^ nat (- e))"

definition unsigned_literal :: "string \<Rightarrow> number option" where
  "unsigned_literal s =
     (if take 8 s = ''Infinity'' then Some PosInfinity
      else (let ip = takeWhile is_digit s; r = dropWhile is_digit s
            in if r \<noteq> [] \<and> hd r = CHR ''.''
               then (let fp = takeWhile is_digit (tl r); r' = dropWhile is_digit (tl r)
                     in if ip = [] \<and> fp = [] then None
                        else Some (Finite (scale10
                               (of_nat (digits_value ip) + of_nat (digits_value fp) / 10 ^ length fp)
                               (exponent_part r'))))
               else if ip = [] then None
               else Some (Finite (scale10 (of_nat (digits_value ip)) (exponent_part r)))))"

fun negate :: "number \<Rightarrow> number" where
  "negate (Finite x) = Finite (- x)"
| "negate PosInfinity = NegInfinity"
| "negate NegInfinity = PosInfinity"

definition parseFloat :: "string option \<Rightarrow> number option" where
  "parseFloat x =
     (case x of
        None \<Rightarrow> None
      | Some s \<Rightarrow>
          (let t = dropWhile is_space s
           in if t \<noteq> [] \<and> hd t = CHR ''-'' then map_option negate (unsigned_literal (tl t))
              else if t \<noteq> [] \<and> hd t = CHR ''+'' then unsigned_literal (tl t)
              else unsigned_literal t))"

subsection \<open>Map\<close>

text \<open>
  A JavaScript \<open>Map\<close> is the list of its entries in insertion order, with no key twice.
  \<open>set\<close> on a key that is present replaces the value where the entry stands; on a
  new key it appends the entry.
\<close>

type_synonym ('k, 'v) js_map = "('k \<times> 'v) list"

definition map_get :: "('k, 'v) js_map \<Rightarrow> 'k \<Rightarrow> 'v option" where
  "map_get m k = map_of m k"

fun map_set :: "('k, 'v) js_map \<Rightarrow> 'k \<Rightarrow> 'v \<Rightarrow> ('k, 'v) js_map" where
  "map_set [] k v = [(k, v)]"
| "map_set ((k', v') # m) k v = (if k' = k then (k, v) # m else (k', v') # map_set m k v)"

definition keys :: "('k, 'v) js_map \<Rightarrow> 'k set" where
  "keys m = fst ` set m"

text \<open>The invariant of a \<open>Map\<close>: no key twice.\<close>

definition is_map :: "('k, 'v) js_map \<Rightarrow> bool" where
  "is_map m = distinct (map fst m)"

section \<open>Configuration\<close>

definition POSITIONS :: "string list" where
  "POSITIONS = [''QB'', ''RB'', ''WR'', ''TE'', ''PK'', ''Def'']"

definition TOP_N :: nat where
  "TOP_N = 30"

definition LEAGUE_ID :: string where
  "LEAGUE_ID = ''13522''"

definition BASE_URL :: string where
  "BASE_URL = ''https://www49.myfantasyleague.com''"

definition YEARS :: "nat list" where
  "YEARS = [2021, 2022, 2023, 2024, 2025]"

definition REQUEST_DELAY_MS :: nat where
  "REQUEST_DELAY_MS = 1000"

definition MAX_RETRIES :: nat where
  "MAX_RETRIES = 3"

definition RETRY_BACKOFF_MS :: nat where
  "RETRY_BACKOFF_MS = 1500"

definition EXCLUDED_POSITIONS :: "string list" where
  "EXCLUDED_POSITIONS =
     [''TMWR'', ''TMRB'', ''TMDL'', ''TMTE'', ''TMQB'', ''TMPK'', ''TMPN'', ''TMLB'', ''TMDB'',
      ''ST'', ''Off'', ''HB'', ''CB'', ''DB'', ''DL'', ''LB'', ''S'', ''DE'', ''DT'', ''FB'']"

section \<open>Helpers: formatName and normalizePosition\<close>

text \<open>
  \<^verbatim>\<open>function formatName(mflName) {
    if (!mflName) return 'Unknown';
    const match = mflName.match(/^([^,]+),\s*(.+)$/);
    if (!match) return mflName;
    return `${match[2].trim()} ${match[1].trim()}`;
  }\<close>
  The argument is a string, or \<open>None\<close> for \<open>undefined\<close> and \<open>null\<close>.

  The regular expression is matched as a backtracking matcher does. \<open>(.+)$\<close> takes the
  whole rest when it is not empty and holds no line terminator. \<open>\s*\<close> is greedy: it
  takes a white space character and goes on, and gives it back when the rest does not
  match. \<open>^([^,]+),\<close> takes the characters before the first comma, at least one.
\<close>

definition match_dot_plus_end :: "string \<Rightarrow> string option" where
  "match_dot_plus_end s =
     (if s \<noteq> [] \<and> (\<forall>c \<in> set s. \<not> is_line_terminator c) then Some s else None)"

fun match_spaces_then :: "string \<Rightarrow> string option" where
  "match_spaces_then [] = None"
| "match_spaces_then (c # cs) =
     (if is_space c
      then (case match_spaces_then cs of
              Some g \<Rightarrow> Some g
            | None \<Rightarrow> match_dot_plus_end (c # cs))
      else match_dot_plus_end (c # cs))"

definition match_name :: "string \<Rightarrow> (string \<times> string) option" where
  "match_name s =
     (let g1 = takeWhile (\<lambda>c. c \<noteq> CHR '','') s;
          rest = dropWhile (\<lambda>c. c \<noteq> CHR '','') s
      in if g1 = [] then None
         else (case rest of
                 [] \<Rightarrow> None
               | comma # after \<Rightarrow>
                   (case match_spaces_then after of
                      None \<Rightarrow> None
                    | Some g2 \<Rightarrow> Some (g1, g2))))"

definition formatName :: "string option \<Rightarrow> string" where
  "formatName mflName =
     (case mflName of
        None \<Rightarrow> ''Unknown''
      | Some n \<Rightarrow>
          if n = [] then ''Unknown''
          else (case match_name n of
                  None \<Rightarrow> n
                | Some (g1, g2) \<Rightarrow> trim g2 @ '' '' @ trim g1))"

text \<open>
  \<^verbatim>\<open>function normalizePosition(pos) {
    if (!pos) return null;
    if (EXCLUDED_POSITIONS.has(pos)) return null;
    const upper = pos.toUpperCase();
    if (upper === 'DEF') return 'Def';
    if (upper === 'K') return 'PK';
    const map = { QB: 'QB', RB: 'RB', WR: 'WR', TE: 'TE', PK: 'PK', DEF: 'Def' };
    return map[upper] || null;
  }\<close>
  \<open>map[upper]\<close> reads the six properties of the object literal: the properties that an
  object inherits (\<open>constructor\<close>, \<open>toString\<close>, ...) have lower-case letters in their
  names, and \<open>upper\<close> has none.
\<close>

definition normalizePosition :: "string option \<Rightarrow> string option" where
  "normalizePosition pos =
     (case pos of
        None \<Rightarrow> None
      | Some p \<Rightarrow>
          if p = [] then None
          else if p \<in> set EXCLUDED_POSITIONS then None
          else (let upper = toUpperCase p
                in if upper = ''DEF'' then Some ''Def''
                   else if upper = ''K'' then Some ''PK''
                   else map_of [(''QB'', ''QB''), (''RB'', ''RB''), (''WR'', ''WR''),
                                (''TE'', ''TE''), (''PK'', ''PK''), (''DEF'', ''Def'')] upper))"

text \<open>The upper-case names that \<open>normalizePosition\<close> accepts.\<close>

definition recognized :: "string list" where
  "recognized = [''QB'', ''RB'', ''WR'', ''TE'', ''PK'', ''K'', ''DEF'']"

section \<open>Reconciliation: mergeInto\<close>

text \<open>
  \<^verbatim>\<open>function mergeInto(target, source) {
    for (const [playerId, salary] of source) {
      const existing = target.get(playerId) || 0;
      target.set(playerId, Math.max(existing, salary));
    }
  }\<close>
  The function mutates \<open>target\<close>; the model returns the new \<open>target\<close>.
\<close>

fun mergeInto :: "(string, number) js_map \<Rightarrow> (string, number) js_map \<Rightarrow> (string, number) js_map" where
  "mergeInto target [] = target"
| "mergeInto target ((playerId, salary) # source) =
     (let existing = or_zero (map_get target playerId)
      in mergeInto (map_set target playerId (max existing salary)) source)"

text \<open>
  The merge of one season in \<open>collectAllData\<close>:
  \<^verbatim>\<open>const merged = new Map();
  mergeInto(merged, rostersW1);
  mergeInto(merged, rostersW14);
  mergeInto(merged, auctionSalaries);
  mergeInto(merged, bbidSalaries);\<close>
\<close>

definition merge_season ::
  "(string, number) js_map \<Rightarrow> (string, number) js_map \<Rightarrow> (string, number) js_map
     \<Rightarrow> (string, number) js_map \<Rightarrow> (string, number) js_map" where
  "merge_season rostersW1 rostersW14 auctionSalaries bbidSalaries =
     mergeInto (mergeInto (mergeInto (mergeInto [] rostersW1) rostersW14) auctionSalaries) bbidSalaries"

text \<open>The amounts of a salary mapping are non-negative (the specification's data model).\<close>

definition non_negative :: "(string, number) js_map \<Rightarrow> bool" where
  "non_negative m = (\<forall>v \<in> snd ` set m. 0 \<le> v)"

text \<open>\<open>m.get(id, 0)\<close> of the specification: the value at \<open>id\<close>, and \<open>0\<close> for a key
  that is not there.\<close>

definition get_or :: "(string, number) js_map \<Rightarrow> string \<Rightarrow> number \<Rightarrow> number" where
  "get_or m k d = (case map_get m k of None \<Rightarrow> d | Some v \<Rightarrow> v)"

section \<open>Source extractors\<close>

text \<open>
  The extractors read the parsed body of a response. A property that is missing, \<open>null\<close>
  or \<open>undefined\<close> is \<open>None\<close>; the properties the extractors read hold strings, as the
  API sends them. A list element that is \<open>null\<close> is an element with every property
  missing (\<open>tx?.transaction\<close>, \<open>p?.id\<close>).
\<close>

record tx =
  transaction :: "string option"

text \<open>
  The loop of \<open>fetchBbidTransactions\<close> over \<open>ensureArray(data?.transactions?.transaction)\<close>:
  \<^verbatim>\<open>for (const tx of transactions) {
    if (!tx?.transaction) continue;
    const parts = tx.transaction.split('|');
    if (parts.length < 3) continue;
    const bidAmount = parseFloat(parts[1]) || 0;
    if (bidAmount <= 0) continue;
    const addedIds = parts[2].split(',').map(s => s.trim()).filter(Boolean);
    for (const playerId of addedIds) {
      const existing = salaryMap.get(playerId) || 0;
      salaryMap.set(playerId, Math.max(existing, bidAmount));
    }
  }\<close>
\<close>

definition bbid_transaction :: "(string, number) js_map \<Rightarrow> tx \<Rightarrow> (string, number) js_map" where
  "bbid_transaction salaryMap t =
     (case transaction t of
        None \<Rightarrow> salaryMap
      | Some s \<Rightarrow>
          if s = [] then salaryMap
          else (let parts = split (CHR ''|'') s
                in if length parts < 3 then salaryMap
                   else (let bidAmount = or_zero (parseFloat (Some (parts ! 1)))
                         in if bidAmount \<le> 0 then salaryMap
                            else (let addedIds = filter (\<lambda>s. s \<noteq> [])
                                                   (map trim (split (CHR '','') (parts ! 2)))
                                  in foldl (\<lambda>m playerId.
                                       (let existing = or_zero (map_get m playerId)
                                        in map_set m playerId (max existing bidAmount)))
                                     salaryMap addedIds))))"

definition bbid_salaryMap :: "tx list \<Rightarrow> (string, number) js_map" where
  "bbid_salaryMap transactions = foldl bbid_transaction [] transactions"

text \<open>
  The waiver rule in the specification's words: split on \<open>|\<close>; discard if fewer than 3
  segments; parse the bid; discard if it is not positive; split the third segment on
  \<open>,\<close>, trim, discard empty tokens; every remaining id is claimed with that bid.
\<close>

definition waiver_claims :: "string option \<Rightarrow> (string \<times> number) list" where
  "waiver_claims payload =
     (case payload of
        None \<Rightarrow> []
      | Some s \<Rightarrow>
          (let segments = split (CHR ''|'') s
           in if length segments < 3 then []
              else (case parseFloat (Some (segments ! 1)) of
                      None \<Rightarrow> []
                    | Some bid \<Rightarrow>
                        if bid \<le> 0 then []
                        else map (\<lambda>playerId. (playerId, bid))
                               (filter (\<lambda>token. token \<noteq> [])
                                  (map trim (split (CHR '','') (segments ! 2)))))))"

text \<open>
  \<^verbatim>\<open>function ensureArray(value) {
    if (!value) return [];
    return Array.isArray(value) ? value : [value];
  }\<close>
  A collection property of a response is missing (or another falsy value), a single
  object, or an array.
\<close>

datatype 'a json = Falsy | Object 'a | Array "'a list"

fun ensureArray :: "'a json \<Rightarrow> 'a list" where
  "ensureArray Falsy = []"
| "ensureArray (Array xs) = xs"
| "ensureArray (Object x) = [x]"

text \<open>
  The loops of \<open>fetchRosters\<close> over \<open>ensureArray(data?.rosters?.franchise)\<close>:
  \<^verbatim>\<open>for (const franchise of franchises) {
    const players = ensureArray(franchise?.player);
    for (const p of players) {
      if (!p?.id) continue;
      const salary = parseFloat(p.salary) || 0;
      if (salary > 0) {
        const existing = salaryMap.get(p.id) || 0;
        salaryMap.set(p.id, Math.max(existing, salary));
      }
    }
  }\<close>
\<close>

record roster_player =
  id' :: "string option"
  salary :: "string option"

record franchise =
  player :: "roster_player json"

definition roster_entry :: "(string, number) js_map \<Rightarrow> roster_player \<Rightarrow> (string, number) js_map" where
  "roster_entry salaryMap p =
     (case roster_player.id' p of
        None \<Rightarrow> salaryMap
      | Some i \<Rightarrow>
          if i = [] then salaryMap
          else (let salary = or_zero (parseFloat (roster_player.salary p))
                in if 0 < salary
                   then (let existing = or_zero (map_get salaryMap i)
                         in map_set salaryMap i (max existing salary))
                   else salaryMap))"

definition roster_salaryMap :: "franchise list \<Rightarrow> (string, number) js_map" where
  "roster_salaryMap franchises =
     foldl (\<lambda>salaryMap f. foldl roster_entry salaryMap (ensureArray (franchise.player f))) [] franchises"

text \<open>
  The loop of \<open>fetchAuctionResults\<close> over
  \<open>ensureArray(data?.auctionResults?.auctionUnit?.auction)\<close>:
  \<^verbatim>\<open>for (const auction of auctions) {
    if (!auction?.player) continue;
    const bid = parseFloat(auction.winningBid) || 0;
    if (bid > 0) {
      const existing = salaryMap.get(auction.player) || 0;
      salaryMap.set(auction.player, Math.max(existing, bid));
    }
  }\<close>
\<close>

record auction =
  player :: "string option"
  winningBid :: "string option"

definition auction_entry :: "(string, number) js_map \<Rightarrow> auction \<Rightarrow> (string, number) js_map" where
  "auction_entry salaryMap a =
     (case auction.player a of
        None \<Rightarrow> salaryMap
      | Some i \<Rightarrow>
          if i = [] then salaryMap
          else (let bid = or_zero (parseFloat (auction.winningBid a))
                in if 0 < bid
                   then (let existing = or_zero (map_get salaryMap i)
                         in map_set salaryMap i (max existing bid))
                   else salaryMap))"

definition auction_salaryMap :: "auction list \<Rightarrow> (string, number) js_map" where
  "auction_salaryMap auctions = foldl auction_entry [] auctions"

text \<open>
  The loop of \<open>fetchPlayerMetadata\<close> over \<open>ensureArray(data?.players?.player)\<close>:
  \<^verbatim>\<open>for (const p of players) {
    if (!p?.id) continue;
    const pos = normalizePosition(p.position);
    if (!pos) continue;
    playerMap.set(p.id, { name: formatName(p.name), position: pos });
  }\<close>
\<close>

record meta =
  name :: string
  position :: string

record player =
  id' :: "string option"
  name :: "string option"
  position :: "string option"

definition player_entry :: "(string, meta) js_map \<Rightarrow> player \<Rightarrow> (string, meta) js_map" where
  "player_entry playerMap p =
     (case player.id' p of
        None \<Rightarrow> playerMap
      | Some i \<Rightarrow>
          if i = [] then playerMap
          else (case normalizePosition (player.position p) of
                  None \<Rightarrow> playerMap
                | Some pos \<Rightarrow>
                    if pos = [] then playerMap
                    else map_set playerMap i
                           \<lparr>meta.name = formatName (player.name p), position = pos\<rparr>))"

definition players_playerMap :: "player list \<Rightarrow> (string, meta) js_map" where
  "players_playerMap players = foldl player_entry [] players"

section \<open>Ranking: rankByPosition\<close>

text \<open>An error that the program throws: the \<open>TypeError\<close> of a call of something that
  is not a function, with the expression called.\<close>

datatype type_error = TypeError string

record entry =
  name :: string
  salary :: number

text \<open>
  \<open>groups\<close> is a plain object: \<open>groups[key]\<close> reads a property that the loop over
  \<open>POSITIONS\<close> has set, or one that every object inherits from \<open>Object.prototype\<close>,
  or is \<open>undefined\<close>. An inherited property is a function or an object: truthy, and
  without a \<open>push\<close> method.
\<close>

definition object_prototype_keys :: "string list" where
  "object_prototype_keys =
     [''constructor'', ''__defineGetter__'', ''__defineSetter__'', ''hasOwnProperty'',
      ''__lookupGetter__'', ''__lookupSetter__'', ''isPrototypeOf'', ''propertyIsEnumerable'',
      ''toString'', ''valueOf'', ''__proto__'', ''toLocaleString'']"

datatype 'a property = Undefined | Inherited | Own 'a

definition get_property :: "(string \<times> 'a) list \<Rightarrow> string \<Rightarrow> 'a property" where
  "get_property obj key =
     (case map_of obj key of
        Some v \<Rightarrow> Own v
      | None \<Rightarrow> if key \<in> set object_prototype_keys then Inherited else Undefined)"

text \<open>
  \<^verbatim>\<open>for (const [playerId, salary] of salaryMap) {
    const meta = playerMap.get(playerId);
    if (!meta) continue;
    if (!groups[meta.position]) continue;
    groups[meta.position].push({ name: meta.name, salary });
  }\<close>
\<close>

definition group_player ::
  "(string \<times> entry list) list \<Rightarrow> (string, meta) js_map \<Rightarrow> string \<times> number
     \<Rightarrow> type_error + (string \<times> entry list) list" where
  "group_player groups playerMap =
     (\<lambda>(playerId, salary).
        (case map_get playerMap playerId of
           None \<Rightarrow> Inr groups
         | Some meta \<Rightarrow>
             (case get_property groups (meta.position meta) of
                Undefined \<Rightarrow> Inr groups
              | Inherited \<Rightarrow> Inl (TypeError ''groups[meta.position].push'')
              | Own bucket \<Rightarrow>
                  Inr (map_set groups (meta.position meta)
                         (bucket @ [\<lparr>entry.name = meta.name meta, salary = salary\<rparr>])))))"

fun group_players ::
  "(string \<times> entry list) list \<Rightarrow> (string, meta) js_map \<Rightarrow> (string, number) js_map
     \<Rightarrow> type_error + (string \<times> entry list) list" where
  "group_players groups playerMap [] = Inr groups"
| "group_players groups playerMap (e # rest) =
     (case group_player groups playerMap e of
        Inl err \<Rightarrow> Inl err
      | Inr groups' \<Rightarrow> group_players groups' playerMap rest)"

text \<open>
  \<open>groups[pos].sort((a, b) => b.salary - a.salary)\<close>. \<open>sort\<close> reads a comparison that
  is \<open>NaN\<close> as \<open>0\<close>. The sort is stable and the comparison is that of a total
  preorder, so the sorted array is the one that insertion in the order of the array gives:
  an element goes after the elements that the comparison puts strictly before it.
\<close>

definition compare_salary :: "entry \<Rightarrow> entry \<Rightarrow> number" where
  "compare_salary a b =
     (case minus_number (entry.salary b) (entry.salary a) of None \<Rightarrow> 0 | Some v \<Rightarrow> v)"

fun insert_sorted :: "('a \<Rightarrow> 'a \<Rightarrow> number) \<Rightarrow> 'a \<Rightarrow> 'a list \<Rightarrow> 'a list" where
  "insert_sorted compare x [] = [x]"
| "insert_sorted compare x (y # ys) =
     (if 0 < compare x y then y # insert_sorted compare x ys else x # y # ys)"

definition array_sort :: "('a \<Rightarrow> 'a \<Rightarrow> number) \<Rightarrow> 'a list \<Rightarrow> 'a list" where
  "array_sort compare xs = foldr (insert_sorted compare) xs []"

text \<open>
  \<^verbatim>\<open>function rankByPosition(salaryMap, playerMap) {
    const groups = {};
    for (const pos of POSITIONS) { groups[pos] = []; }
    ...
    const ranked = {};
    for (const pos of POSITIONS) {
      groups[pos].sort((a, b) => b.salary - a.salary);
      ranked[pos] = groups[pos].slice(0, TOP_N);
    }
    return ranked;
  }\<close>
  \<open>ranked\<close> is the list of its properties in the order they are set.
\<close>

definition group_of :: "(string \<times> entry list) list \<Rightarrow> string \<Rightarrow> entry list" where
  "group_of groups pos = (case map_of groups pos of None \<Rightarrow> [] | Some bucket \<Rightarrow> bucket)"

definition rankByPosition ::
  "(string, number) js_map \<Rightarrow> (string, meta) js_map \<Rightarrow> type_error + (string \<times> entry list) list" where
  "rankByPosition salaryMap playerMap =
     (case group_players (map (\<lambda>pos. (pos, [])) POSITIONS) playerMap salaryMap of
        Inl e \<Rightarrow> Inl e
      | Inr groups \<Rightarrow>
          Inr (map (\<lambda>pos. (pos, take TOP_N (array_sort compare_salary (group_of groups pos))))
                 POSITIONS))"

text \<open>
  The players that qualify for a position, in the order \<open>salaryMap\<close> lists them: those
  with metadata of that position.
\<close>

definition qualifying :: "(string, number) js_map \<Rightarrow> (string, meta) js_map \<Rightarrow> string \<Rightarrow> entry list" where
  "qualifying salaryMap playerMap pos =
     List.map_filter
       (\<lambda>(playerId, salary).
           (case map_get playerMap playerId of
              None \<Rightarrow> None
            | Some meta \<Rightarrow>
                if meta.position meta = pos
                then Some \<lparr>entry.name = meta.name meta, salary = salary\<rparr>
                else None))
       salaryMap"

text \<open>The invariant of the metadata: every position is a tracked position.\<close>

definition tracked :: "(string, meta) js_map \<Rightarrow> bool" where
  "tracked playerMap = (\<forall>m \<in> snd ` set playerMap. meta.position m \<in> set POSITIONS)"

section \<open>The API layer: fetchJson\<close>

text \<open>
  The parsed body of a response, as the program reads it: \<open>data?.error\<close> (its JSON text
  when it is truthy) and the four collections of the extractors, each before
  \<open>ensureArray\<close>. A body that is \<open>null\<close> has every property missing.
\<close>

record body =
  error :: "string option"
  rosters_franchise :: "franchise json"
  auctionResults_auction :: "auction json"
  transactions_transaction :: "tx json"
  players_player :: "player json"

text \<open>
  What one \<open>fetch(url)\<close> comes to: the call rejects (a failure of the transport), the
  response is not \<open>ok\<close> (with its status and status text), \<open>response.json()\<close> rejects,
  or the body is parsed. The network is a parameter of the model: the reply to the
  \<open>n\<close>-th call of \<open>fetch\<close> of a run, counted from 0, with its URL.
\<close>

datatype reply = Rejects string | NotOk nat string | BadJson string | Body body

type_synonym network = "nat \<Rightarrow> string \<Rightarrow> reply"

text \<open>
  What the \<open>try\<close> block throws, by the message of the error: the message of the
  rejection, \<open>HTTP ${status}: ${statusText}\<close>, or \<open>MFL error: ${JSON.stringify(data.error)}\<close>.
\<close>

datatype failure = Thrown string | HttpStatus nat string | MflError string

text \<open>
  The errors that reach \<open>main\<close>: that of \<open>fetchJson\<close>, whose message is
  \<open>Failed after ${MAX_RETRIES} attempts: ${url} - ${err.message}\<close>; the \<open>TypeError\<close> of
  \<open>rankByPosition\<close>; an error thrown by \<open>XLSX.writeFile\<close>.
\<close>

datatype js_error = FetchFailed nat string failure | RankFailed type_error | WriteFailed string

text \<open>
  The effects of a run, in the order they happen: a call of \<open>fetch\<close>, a pause
  (\<open>await delay(ms)\<close>), the workbook written, the message of \<open>console.error\<close>, and
  \<open>process.exit\<close>. What \<open>console.log\<close> and \<open>console.warn\<close> print is not modelled.
\<close>

type_synonym report = "(string \<times> (nat \<times> entry list) list) list"

datatype event =
    Fetch string
  | Delay nat
  | WriteFile string report
  | ConsoleError js_error
  | Exit nat

type_synonym world = "event list"

definition fetch_count :: "world \<Rightarrow> nat" where
  "fetch_count w = length (filter (\<lambda>e. case e of Fetch url \<Rightarrow> True | _ \<Rightarrow> False) w)"

definition delay :: "nat \<Rightarrow> world \<Rightarrow> world" where
  "delay ms w = w @ [Delay ms]"

text \<open>
  The \<open>try\<close> block of \<open>fetchJson\<close> on the reply to its \<open>fetch\<close>:
  \<^verbatim>\<open>const response = await fetch(url);
  if (!response.ok) {
    throw new Error(`HTTP ${response.status}: ${response.statusText}`);
  }
  const data = await response.json();
  if (data?.error) {
    throw new Error(`MFL error: ${JSON.stringify(data.error)}`);
  }
  return data;\<close>
\<close>

definition try_reply :: "reply \<Rightarrow> failure + body" where
  "try_reply r =
     (case r of
        Rejects message \<Rightarrow> Inl (Thrown message)
      | NotOk status statusText \<Rightarrow> Inl (HttpStatus status statusText)
      | BadJson message \<Rightarrow> Inl (Thrown message)
      | Body data \<Rightarrow>
          (case body.error data of
             Some e \<Rightarrow> Inl (MflError e)
           | None \<Rightarrow> Inr data))"

text \<open>
  \<^verbatim>\<open>async function fetchJson(url) {
    for (let attempt = 1; attempt <= MAX_RETRIES; attempt++) {
      try { ... return data; }
      catch (err) {
        if (attempt === MAX_RETRIES) {
          throw new Error(`Failed after ${MAX_RETRIES} attempts: ${url} - ${err.message}`);
        }
        const wait = RETRY_BACKOFF_MS * attempt;
        await delay(wait);
      }
    }
  }\<close>
  A loop that ends without \<open>return\<close> gives \<open>undefined\<close>, which the extractors read as
  a body with every property missing.
\<close>

definition undefined_body :: body where
  "undefined_body =
     \<lparr>error = None, rosters_franchise = Falsy, auctionResults_auction = Falsy,
      transactions_transaction = Falsy, players_player = Falsy\<rparr>"

function fetchJson_loop :: "network \<Rightarrow> string \<Rightarrow> nat \<Rightarrow> world \<Rightarrow> (js_error + body) \<times> world" where
  "fetchJson_loop net url attempt w =
     (if attempt \<le> MAX_RETRIES
      then (let w' = w @ [Fetch url]
            in (case try_reply (net (fetch_count w) url) of
                  Inr data \<Rightarrow> (Inr data, w')
                | Inl err \<Rightarrow>
                    if attempt = MAX_RETRIES then (Inl (FetchFailed MAX_RETRIES url err), w')
                    else fetchJson_loop net url (attempt + 1)
                           (delay (RETRY_BACKOFF_MS * attempt) w')))
      else (Inr undefined_body, w))"
  by pat_completeness auto
termination
  by (relation "measure (\<lambda>(net, url, attempt, w). Suc MAX_RETRIES - attempt)") auto

definition fetchJson :: "network \<Rightarrow> string \<Rightarrow> world \<Rightarrow> (js_error + body) \<times> world" where
  "fetchJson net url w = fetchJson_loop net url 1 w"

text \<open>
  \<^verbatim>\<open>function buildUrl(year, params) {
    const qs = new URLSearchParams({ L: LEAGUE_ID, JSON: '1', ...params });
    return `${BASE_URL}/${year}/export?${qs}`;
  }\<close>
  The names and values of the parameters are letters, digits and \<open>_\<close>, which
  \<open>URLSearchParams\<close> writes as they are, \<open>name=value\<close> joined by \<open>&\<close>.
\<close>

function String_nat :: "nat \<Rightarrow> string" where
  "String_nat n =
     (if n < 10 then [''0123456789'' ! n]
      else String_nat (n div 10) @ [''0123456789'' ! (n mod 10)])"
  by pat_completeness auto
termination
  by (relation "measure (\<lambda>n. n)") auto

fun query_string :: "(string \<times> string) list \<Rightarrow> string" where
  "query_string [] = []"
| "query_string [(k, v)] = k @ ''='' @ v"
| "query_string ((k, v) # rest) = k @ ''='' @ v @ ''&'' @ query_string rest"

definition buildUrl :: "nat \<Rightarrow> (string \<times> string) list \<Rightarrow> string" where
  "buildUrl year params =
     BASE_URL @ ''/'' @ String_nat year @ ''/export?''
       @ query_string ([(''L'', LEAGUE_ID), (''JSON'', ''1'')] @ params)"

section \<open>Data fetching and the run\<close>

text \<open>A step that may throw, then the rest of the function: an error ends the function
  where it is thrown, with the effects so far.\<close>

definition and_then ::
  "(js_error + 'a) \<times> world \<Rightarrow> ('a \<Rightarrow> world \<Rightarrow> (js_error + 'b) \<times> world) \<Rightarrow> (js_error + 'b) \<times> world" where
  "and_then step rest =
     (case step of
        (Inl err, w) \<Rightarrow> (Inl err, w)
      | (Inr x, w) \<Rightarrow> rest x w)"

definition fetchRosters ::
  "network \<Rightarrow> nat \<Rightarrow> nat \<Rightarrow> world \<Rightarrow> (js_error + (string, number) js_map) \<times> world" where
  "fetchRosters net year week w =
     and_then (fetchJson net (buildUrl year [(''TYPE'', ''rosters''), (''W'', String_nat week)]) w)
       (\<lambda>data w'. (Inr (roster_salaryMap (ensureArray (rosters_franchise data))), w'))"

definition fetchAuctionResults ::
  "network \<Rightarrow> nat \<Rightarrow> world \<Rightarrow> (js_error + (string, number) js_map) \<times> world" where
  "fetchAuctionResults net year w =
     and_then (fetchJson net (buildUrl year [(''TYPE'', ''auctionResults'')]) w)
       (\<lambda>data w'. (Inr (auction_salaryMap (ensureArray (auctionResults_auction data))), w'))"

definition fetchBbidTransactions ::
  "network \<Rightarrow> nat \<Rightarrow> world \<Rightarrow> (js_error + (string, number) js_map) \<times> world" where
  "fetchBbidTransactions net year w =
     and_then (fetchJson net
        (buildUrl year [(''TYPE'', ''transactions''), (''TRANS_TYPE'', ''BBID_WAIVER''), (''COUNT'', ''500'')]) w)
       (\<lambda>data w'. (Inr (bbid_salaryMap (ensureArray (transactions_transaction data))), w'))"

definition fetchPlayerMetadata ::
  "network \<Rightarrow> nat \<Rightarrow> world \<Rightarrow> (js_error + (string, meta) js_map) \<times> world" where
  "fetchPlayerMetadata net year w =
     and_then (fetchJson net (buildUrl year [(''TYPE'', ''players''), (''DETAILS'', ''1'')]) w)
       (\<lambda>data w'. (Inr (players_playerMap (ensureArray (players_player data))), w'))"

text \<open>
  The body of the loop of \<open>collectAllData\<close> for one year: the five requests, each
  followed by \<open>await delay(REQUEST_DELAY_MS)\<close>, the merge and the ranking.
\<close>

definition collect_year ::
  "network \<Rightarrow> nat \<Rightarrow> world \<Rightarrow> (js_error + (string \<times> entry list) list) \<times> world" where
  "collect_year net year w =
     and_then (fetchRosters net year 1 w) (\<lambda>rostersW1 w.
     and_then (fetchRosters net year 14 (delay REQUEST_DELAY_MS w)) (\<lambda>rostersW14 w.
     and_then (fetchAuctionResults net year (delay REQUEST_DELAY_MS w)) (\<lambda>auctionSalaries w.
     and_then (fetchBbidTransactions net year (delay REQUEST_DELAY_MS w)) (\<lambda>bbidSalaries w.
     and_then (fetchPlayerMetadata net year (delay REQUEST_DELAY_MS w)) (\<lambda>playerMap w.
       (let merged = merge_season rostersW1 rostersW14 auctionSalaries bbidSalaries
        in (case rankByPosition merged playerMap of
              Inl e \<Rightarrow> (Inl (RankFailed e), delay REQUEST_DELAY_MS w)
            | Inr ranked \<Rightarrow> (Inr ranked, delay REQUEST_DELAY_MS w))))))))"

text \<open>\<open>for (const pos of POSITIONS) { allData[pos][year] = ranked[pos]; }\<close>\<close>

definition store_year :: "report \<Rightarrow> nat \<Rightarrow> (string \<times> entry list) list \<Rightarrow> report" where
  "store_year allData year ranked =
     map (\<lambda>(pos, by_year). (pos, map_set by_year year (group_of ranked pos))) allData"

fun collect_years :: "network \<Rightarrow> report \<Rightarrow> nat list \<Rightarrow> world \<Rightarrow> (js_error + report) \<times> world" where
  "collect_years net allData [] w = (Inr allData, w)"
| "collect_years net allData (year # years) w =
     and_then (collect_year net year w)
       (\<lambda>ranked w'. collect_years net (store_year allData year ranked) years w')"

definition collectAllData :: "network \<Rightarrow> world \<Rightarrow> (js_error + report) \<times> world" where
  "collectAllData net w = collect_years net (map (\<lambda>pos. (pos, [])) POSITIONS) YEARS w"

text \<open>
  \<^verbatim>\<open>async function main() {
    try {
      const allData = await collectAllData();
      const timestamp = new Date().toISOString().slice(0, 10);
      const filename = `mfl-salary-top30-${timestamp}.xlsx`;
      const wb = createWorkbook(allData);
      XLSX.writeFile(wb, filename);
    } catch (err) {
      console.error('\nFatal error:', err.message);
      process.exit(1);
    }
  }\<close>
  The date and the file system are parameters: \<open>timestamp\<close>, and \<open>writeFile\<close>, which
  gives the message of the error that writing a file throws, if it throws. The workbook
  is given by the data it is built from; its sheets are not modelled. The result is the
  exit status of the process and the effects of the run.
\<close>

definition main :: "network \<Rightarrow> string \<Rightarrow> (string \<Rightarrow> string option) \<Rightarrow> world \<Rightarrow> nat \<times> world" where
  "main net timestamp writeFile w =
     (case collectAllData net w of
        (Inl err, w') \<Rightarrow> (1, w' @ [ConsoleError err, Exit 1])
      | (Inr allData, w') \<Rightarrow>
          (let filename = ''mfl-salary-top30-'' @ timestamp @ ''.xlsx''
           in (case writeFile filename of
                 None \<Rightarrow> (0, w' @ [WriteFile filename allData])
               | Some message \<Rightarrow>
                   (1, w' @ [ConsoleError (WriteFailed message), Exit 1]))))"

text \<open>
  The requests of a run in the specification's words: for each season in order, the two
  roster requests, the auction request, the waiver request and the metadata request, one
  at a time through the fetch client, each followed by the pause; the run stops at the
  first request that fails.
\<close>

definition season_urls :: "nat \<Rightarrow> string list" where
  "season_urls year =
     [buildUrl year [(''TYPE'', ''rosters''), (''W'', ''1'')],
      buildUrl year [(''TYPE'', ''rosters''), (''W'', ''14'')],
      buildUrl year [(''TYPE'', ''auctionResults'')],
      buildUrl year [(''TYPE'', ''transactions''), (''TRANS_TYPE'', ''BBID_WAIVER''), (''COUNT'', ''500'')],
      buildUrl year [(''TYPE'', ''players''), (''DETAILS'', ''1'')]]"

definition run_urls :: "string list" where
  "run_urls = concat (map season_urls YEARS)"

fun fetch_all :: "network \<Rightarrow> string list \<Rightarrow> world \<Rightarrow> (js_error + body list) \<times> world" where
  "fetch_all net [] w = (Inr [], w)"
| "fetch_all net (url # urls) w =
     (case fetchJson net url w of
        (Inl err, w') \<Rightarrow> (Inl err, w')
      | (Inr data, w') \<Rightarrow>
          (case fetch_all net urls (delay REQUEST_DELAY_MS w') of
             (Inl err, w'') \<Rightarrow> (Inl err, w'')
           | (Inr rest, w'') \<Rightarrow> (Inr (data # rest), w'')))"

text \<open>A run agrees with the requests of the specification: it fails with the same error
  and the same effects, or it returns with the same effects.\<close>

definition agrees :: "(js_error + 'a) \<times> world \<Rightarrow> (js_error + 'b) \<times> world \<Rightarrow> bool" where
  "agrees requests run =
     (case requests of
        (Inl err, w) \<Rightarrow> run = (Inl err, w)
      | (Inr bodies, w) \<Rightarrow> (\<exists>result. run = (Inr result, w)))"

definition written :: "world \<Rightarrow> bool" where
  "written w = list_ex (\<lambda>e. case e of WriteFile filename allData \<Rightarrow> True | _ \<Rightarrow> False) w"

text \<open>The values a list of entries gives to one key, in the order of the entries.\<close>

definition values_at :: "(string, number) js_map \<Rightarrow> string \<Rightarrow> number list" where
  "values_at m k = map snd (filter (\<lambda>e. fst e = k) m)"

section \<open>Properties of Map and mergeInto\<close>

lemma map_get_map_set: "map_get (map_set m k v) k' = (if k' = k then Some v else map_get m k')"
  by (induction m) (auto simp: map_get_def)

lemma keys_map_set: "keys (map_set m k v) = insert k (keys m)"
proof (induction m)
  case Nil
  then show ?case by (simp add: keys_def)
next
  case (Cons e m)
  obtain k' v' where e: "e = (k', v')" by (cases e)
  from Cons.IH show ?case
    by (simp add: keys_def e insert_commute)
qed

lemma is_map_map_set: "is_map m \<Longrightarrow> is_map (map_set m k v)"
proof (induction m)
  case Nil
  then show ?case by (simp add: is_map_def)
next
  case (Cons p m)
  have "fst ` set (map_set m k v) = insert k (fst ` set m)"
    using keys_map_set [of m k v] by (simp add: keys_def)
  with Cons show ?case
    by (cases p) (auto simp: is_map_def)
qed

lemma or_zero_Some: "or_zero (Some v) = v"
  by (simp add: or_zero_def)

lemma or_zero_None: "or_zero None = 0"
  by (simp add: or_zero_def)

lemma map_get_mergeInto:
  "map_get (mergeInto target source) k =
     (if values_at source k = [] then map_get target k
      else Some (fold max (values_at source k) (or_zero (map_get target k))))"
proof (induction source arbitrary: target)
  case Nil
  then show ?case by (simp add: values_at_def)
next
  case (Cons e source)
  obtain playerId salary where e: "e = (playerId, salary)" by (cases e)
  show ?case
    by (simp add: e Cons.IH map_get_map_set values_at_def or_zero_Some max.commute)
qed

lemma keys_mergeInto: "keys (mergeInto target source) = keys target \<union> keys source"
proof (induction source arbitrary: target)
  case Nil
  then show ?case by (simp add: keys_def)
next
  case (Cons e source)
  obtain playerId salary where e: "e = (playerId, salary)" by (cases e)
  show ?case
    by (simp add: e Cons.IH keys_map_set) (auto simp: keys_def)
qed

lemma is_map_mergeInto: "is_map target \<Longrightarrow> is_map (mergeInto target source)"
proof (induction source arbitrary: target)
  case Nil
  then show ?case by simp
next
  case (Cons e source)
  obtain playerId salary where e: "e = (playerId, salary)" by (cases e)
  show ?case
    using Cons.prems by (simp add: e Cons.IH is_map_map_set)
qed

lemma fold_max_Max: "fold max vs (x::number) = Max (insert x (set vs))"
proof (induction vs arbitrary: x)
  case Nil
  then show ?case by simp
next
  case (Cons v vs)
  have "Max (insert (max v x) (set vs)) = Max (insert x (insert v (set vs)))"
  proof (cases "set vs = {}")
    case True
    then show ?thesis by (simp add: max.commute)
  next
    case False
    then show ?thesis by (simp add: max.assoc max.left_commute max.commute insert_commute)
  qed
  then show ?case by (simp add: Cons.IH)
qed

lemma values_at_is_map:
  "is_map m \<Longrightarrow> values_at m k = (case map_get m k of None \<Rightarrow> [] | Some v \<Rightarrow> [v])"
proof (induction m)
  case Nil
  then show ?case by (simp add: values_at_def map_get_def)
next
  case (Cons e m)
  obtain k' v' where e: "e = (k', v')" by (cases e)
  from Cons.prems have d: "is_map m" and nk: "k' \<notin> fst ` set m"
    by (auto simp: is_map_def e)
  have "k = k' \<Longrightarrow> filter (\<lambda>e. fst e = k) m = []"
    using nk by (auto simp: filter_empty_conv)
  then show ?case
    using Cons.IH [OF d] by (auto simp: e values_at_def map_get_def)
qed

lemma map_get_None_iff: "map_get m k = None \<longleftrightarrow> k \<notin> keys m"
  by (simp add: map_get_def keys_def map_of_eq_None_iff)

lemma values_at_append: "values_at (a @ b) k = values_at a k @ values_at b k"
  by (simp add: values_at_def)

lemma map_get_foldl_mergeInto:
  "map_get (foldl mergeInto target ms) k =
     (if values_at (concat ms) k = [] then map_get target k
      else Some (fold max (values_at (concat ms) k) (or_zero (map_get target k))))"
proof (induction ms arbitrary: target)
  case Nil
  then show ?case by (simp add: values_at_def)
next
  case (Cons m ms)
  show ?case
    by (simp add: Cons.IH map_get_mergeInto values_at_append or_zero_Some)
qed

lemma set_values_at_concat:
  "set (values_at (concat ms) k) = (\<Union>m \<in> set ms. set (values_at m k))"
  by (induction ms) (simp_all add: values_at_append, simp add: values_at_def)

lemma map_get_merge_all:
  "map_get (foldl mergeInto [] ms) k =
     (if (\<Union>m \<in> set ms. set (values_at m k)) = {} then None
      else Some (Max (insert 0 (\<Union>m \<in> set ms. set (values_at m k)))))"
proof -
  have e: "(values_at (concat ms) k = []) = ((\<Union>m \<in> set ms. set (values_at m k)) = {})"
    using set_values_at_concat [of ms k] by (metis set_empty)
  show ?thesis
    unfolding map_get_foldl_mergeInto e
    by (simp add: fold_max_Max set_values_at_concat map_get_def or_zero_None)
qed

lemma merge_season_foldl:
  "merge_season a b c d = foldl mergeInto [] [a, b, c, d]"
  by (simp add: merge_season_def)

lemma keys_foldl_mergeInto: "keys (foldl mergeInto target ms) = keys target \<union> (\<Union>m \<in> set ms. keys m)"
  by (induction ms arbitrary: target) (auto simp: keys_mergeInto)

text \<open>
  Claim C1. One call of \<open>mergeInto\<close> on a target of non-negative amounts gives every
  playerId of the target or of the source the amount
  \<open>max(target.get(id, 0), source.get(id, 0))\<close>, and no other key. Merging the four
  salary mappings of a season into an empty \<open>Map\<close> in any order gives the mapping that
  \<open>collectAllData\<close> builds: the same keys, and the same amount at every key.
\<close>

theorem mergeInto_order_independent:
  "(is_map source \<and> non_negative target \<longrightarrow>
      (\<forall>playerId. map_get (mergeInto target source) playerId =
         (if playerId \<in> keys target \<union> keys source
          then Some (max (get_or target playerId 0) (get_or source playerId 0)) else None)))
   \<and> (mset ms = mset [rostersW1, rostersW14, auctionSalaries, bbidSalaries] \<longrightarrow>
        keys (foldl mergeInto [] ms) = keys (merge_season rostersW1 rostersW14 auctionSalaries bbidSalaries)
        \<and> map_get (foldl mergeInto [] ms) = map_get (merge_season rostersW1 rostersW14 auctionSalaries bbidSalaries))"
proof (intro conjI impI allI)
  fix playerId
  assume h: "is_map source \<and> non_negative target"
  then have src: "values_at source playerId = (case map_get source playerId of None \<Rightarrow> [] | Some v \<Rightarrow> [v])"
    by (simp add: values_at_is_map)
  show "map_get (mergeInto target source) playerId =
         (if playerId \<in> keys target \<union> keys source
          then Some (max (get_or target playerId 0) (get_or source playerId 0)) else None)"
  proof (cases "map_get source playerId")
    case None
    note s = this
    show ?thesis
    proof (cases "map_get target playerId")
      case None
      with s show ?thesis
        using map_get_None_iff [of target playerId] map_get_None_iff [of source playerId]
        by (simp add: map_get_mergeInto src)
    next
      case (Some t)
      then have "(playerId, t) \<in> set target"
        by (simp add: map_get_def map_of_SomeD)
      then have "0 \<le> t"
        using h by (force simp: non_negative_def)
      then show ?thesis
        using s Some map_get_None_iff [of target playerId]
        by (simp add: map_get_mergeInto src get_or_def max_def)
    qed
  next
    case (Some v)
    then have "playerId \<in> keys source"
      using map_get_None_iff [of source playerId] by simp
    then show ?thesis
      using Some
      by (cases "map_get target playerId")
         (simp_all add: map_get_mergeInto src get_or_def or_zero_Some or_zero_None max.commute)
  qed
next
  assume p: "mset ms = mset [rostersW1, rostersW14, auctionSalaries, bbidSalaries]"
  then have s: "set ms = set [rostersW1, rostersW14, auctionSalaries, bbidSalaries]"
    by (rule mset_eq_setD)
  show "keys (foldl mergeInto [] ms) = keys (merge_season rostersW1 rostersW14 auctionSalaries bbidSalaries)"
    unfolding merge_season_foldl keys_foldl_mergeInto s ..
  show "map_get (foldl mergeInto [] ms) = map_get (merge_season rostersW1 rostersW14 auctionSalaries bbidSalaries)"
  proof
    fix k
    show "map_get (foldl mergeInto [] ms) k = map_get (merge_season rostersW1 rostersW14 auctionSalaries bbidSalaries) k"
      unfolding merge_season_foldl map_get_merge_all s ..
  qed
qed

lemma values_at_mem: "map_get m k = Some v \<Longrightarrow> v \<in> set (values_at m k)"
  by (force simp: map_get_def values_at_def dest: map_of_SomeD)

lemma values_at_empty_iff: "values_at m k = [] \<longleftrightarrow> map_get m k = None"
  by (auto simp: values_at_def filter_empty_conv map_get_def map_of_eq_None_iff)

text \<open>
  Claim C2. In the merged mapping of a season, the amount of a playerId is at least the
  amount any of the four sources gives it; it is the maximum of the amounts of the sources
  that contain the playerId (the sources being Maps of non-negative amounts); and the
  playerId is absent from the merged mapping exactly when all four sources lack it.
\<close>

theorem merge_monotone:
  fixes rostersW1 rostersW14 auctionSalaries bbidSalaries :: "(string, number) js_map"
  shows
  "(\<forall>source \<in> set [rostersW1, rostersW14, auctionSalaries, bbidSalaries]. \<forall>v.
      map_get source playerId = Some v \<longrightarrow>
        (\<exists>w. map_get (merge_season rostersW1 rostersW14 auctionSalaries bbidSalaries) playerId = Some w \<and> v \<le> w))
   \<and> ((\<forall>source \<in> set [rostersW1, rostersW14, auctionSalaries, bbidSalaries].
          is_map source \<and> non_negative source) \<longrightarrow>
        map_get (merge_season rostersW1 rostersW14 auctionSalaries bbidSalaries) playerId =
          (case List.map_filter (\<lambda>source. map_get source playerId)
                  [rostersW1, rostersW14, auctionSalaries, bbidSalaries] of
             [] \<Rightarrow> None
           | vs \<Rightarrow> Some (Max (set vs))))
   \<and> (map_get (merge_season rostersW1 rostersW14 auctionSalaries bbidSalaries) playerId = None \<longleftrightarrow>
        (\<forall>source \<in> set [rostersW1, rostersW14, auctionSalaries, bbidSalaries].
           map_get source playerId = None))"
proof -
  define srcs where "srcs = [rostersW1, rostersW14, auctionSalaries, bbidSalaries]"
  define merged where "merged = merge_season rostersW1 rostersW14 auctionSalaries bbidSalaries"
  define V where "V = (\<Union>m \<in> set srcs. set (values_at m playerId))"
  have m: "map_get merged playerId = (if V = {} then None else Some (Max (insert 0 V)))"
    unfolding merged_def srcs_def V_def merge_season_foldl map_get_merge_all ..
  have fin: "finite V"
    by (simp add: V_def)
  have a: "\<forall>source \<in> set srcs. \<forall>v. map_get source playerId = Some v \<longrightarrow>
        (\<exists>w. map_get merged playerId = Some w \<and> v \<le> w)"
  proof (intro ballI allI impI)
    fix source v
    assume "source \<in> set srcs" and "map_get source playerId = Some v"
    then have "v \<in> V"
      unfolding V_def using values_at_mem by blast
    then have "V \<noteq> {}" and "v \<le> Max (insert 0 V)"
      using fin by auto
    then show "\<exists>w. map_get merged playerId = Some w \<and> v \<le> w"
      using m by simp
  qed
  have c: "map_get merged playerId = None \<longleftrightarrow> (\<forall>source \<in> set srcs. map_get source playerId = None)"
  proof -
    have "V = {} \<longleftrightarrow> (\<forall>source \<in> set srcs. values_at source playerId = [])"
      by (auto simp: V_def)
    then show ?thesis
      using m by (simp add: values_at_empty_iff)
  qed
  have b: "map_get merged playerId =
          (case List.map_filter (\<lambda>source. map_get source playerId) srcs of
             [] \<Rightarrow> None | vs \<Rightarrow> Some (Max (set vs)))"
    if h: "\<forall>source \<in> set srcs. is_map source \<and> non_negative source"
  proof -
    have "set (List.map_filter (\<lambda>source. map_get source playerId) ss) = (\<Union>m \<in> set ss. set (values_at m playerId))"
      if "\<forall>source \<in> set ss. is_map source" for ss
      using that
      by (induction ss) (auto simp: List.map_filter_simps values_at_is_map split: option.splits)
    then have V: "set (List.map_filter (\<lambda>source. map_get source playerId) srcs) = V"
      using h by (simp add: V_def)
    have nn: "0 \<le> v" if "v \<in> V" for v
    proof -
      from that obtain source where s: "source \<in> set srcs" and v: "v \<in> set (values_at source playerId)"
        by (auto simp: V_def)
      from v have "v \<in> snd ` set source"
        by (auto simp: values_at_def)
      with h s show ?thesis
        by (auto simp: non_negative_def)
    qed
    show ?thesis
    proof (cases "V = {}")
      case True
      with V m show ?thesis by (simp split: list.splits)
    next
      case False
      then obtain v where "v \<in> V" by blast
      then have "0 \<le> Max V"
        using nn fin by (meson Max_ge order_trans)
      then have "Max (insert 0 V) = Max V"
        using fin False by (simp add: max_def)
      with False V m show ?thesis
        by (auto split: list.splits)
    qed
  qed
  from a b c show ?thesis
    unfolding srcs_def merged_def by blast
qed

text \<open>Claims C1 and C2 at the salaries of two players.\<close>

theorem mergeInto_order_independent_witness:
  "is_map [(''13593'', Finite 425000), (''14867'', Finite 900000)]
   \<and> non_negative [(''13593'', Finite 500000), (''9988'', Finite 1000000)]
   \<and> map_get (mergeInto [(''13593'', Finite 500000), (''9988'', Finite 1000000)]
                 [(''13593'', Finite 425000), (''14867'', Finite 900000)]) ''13593'' = Some (Finite 500000)
   \<and> map_get (mergeInto [(''13593'', Finite 500000), (''9988'', Finite 1000000)]
                 [(''13593'', Finite 425000), (''14867'', Finite 900000)]) ''14867'' = Some (Finite 900000)
   \<and> map_get (mergeInto [(''13593'', Finite 500000), (''9988'', Finite 1000000)]
                 [(''13593'', Finite 425000), (''14867'', Finite 900000)]) ''9988'' = Some (Finite 1000000)
   \<and> map_get (mergeInto [(''13593'', Finite 500000), (''9988'', Finite 1000000)]
                 [(''13593'', Finite 425000), (''14867'', Finite 900000)]) ''777'' = None
   \<and> map_get (foldl mergeInto []
        [[(''13593'', Finite 425000)], [(''9988'', Finite 1500000)], [(''13593'', Finite 300000)],
         [(''9988'', Finite 1000000), (''13593'', Finite 100000)]])
     = map_get (merge_season [(''9988'', Finite 1000000), (''13593'', Finite 100000)]
         [(''13593'', Finite 300000)] [(''9988'', Finite 1500000)] [(''13593'', Finite 425000)])"
proof -
  let ?target = "[(''13593'', Finite 500000), (''9988'', Finite 1000000)]"
  let ?source = "[(''13593'', Finite 425000), (''14867'', Finite 900000)]"
  let ?w1 = "[(''9988'', Finite 1000000), (''13593'', Finite 100000)]"
  let ?w14 = "[(''13593'', Finite 300000)]"
  let ?au = "[(''9988'', Finite 1500000)]"
  let ?bb = "[(''13593'', Finite 425000)]"
  have h: "is_map ?source \<and> non_negative ?target"
    by (simp add: is_map_def non_negative_def zero_number_def)
  have p: "mset [?bb, ?au, ?w14, ?w1] = mset [?w1, ?w14, ?au, ?bb]"
    by simp
  note t = mergeInto_order_independent [of ?source ?target "[?bb, ?au, ?w14, ?w1]" ?w1 ?w14 ?au ?bb]
  from t h have f: "\<And>playerId. map_get (mergeInto ?target ?source) playerId =
         (if playerId \<in> keys ?target \<union> keys ?source
          then Some (max (get_or ?target playerId 0) (get_or ?source playerId 0)) else None)"
    by blast
  from t p have g: "map_get (foldl mergeInto [] [?bb, ?au, ?w14, ?w1]) = map_get (merge_season ?w1 ?w14 ?au ?bb)"
    by blast
  have a: "map_get (mergeInto ?target ?source) ''13593'' = Some (Finite 500000)"
    and b: "map_get (mergeInto ?target ?source) ''14867'' = Some (Finite 900000)"
    and c: "map_get (mergeInto ?target ?source) ''9988'' = Some (Finite 1000000)"
    and d: "map_get (mergeInto ?target ?source) ''777'' = None"
    unfolding f by (simp_all add: keys_def get_or_def map_get_def zero_number_def)
  from h a b c d g show ?thesis
    by blast
qed

theorem merge_monotone_witness:
  "is_map [(''9988'', Finite 1000000), (''13593'', Finite 100000)] \<and>
   non_negative [(''9988'', Finite 1000000), (''13593'', Finite 100000)] \<and>
   is_map [(''13593'', Finite 300000)] \<and> non_negative [(''13593'', Finite 300000)] \<and>
   is_map [(''9988'', Finite 1500000)] \<and> non_negative [(''9988'', Finite 1500000)] \<and>
   is_map [(''13593'', Finite 425000)] \<and> non_negative [(''13593'', Finite 425000)] \<and>
   map_get (merge_season [(''9988'', Finite 1000000), (''13593'', Finite 100000)]
         [(''13593'', Finite 300000)] [(''9988'', Finite 1500000)] [(''13593'', Finite 425000)]) ''9988''
     = Some (Finite 1500000) \<and>
   map_get [(''9988'', Finite 1000000), (''13593'', Finite 100000)] ''9988'' = Some (Finite 1000000) \<and>
   Finite 1000000 \<le> Finite 1500000"
proof -
  let ?w1 = "[(''9988'', Finite 1000000), (''13593'', Finite 100000)]"
  let ?w14 = "[(''13593'', Finite 300000)]"
  let ?au = "[(''9988'', Finite 1500000)]"
  let ?bb = "[(''13593'', Finite 425000)]"
  have h: "\<forall>source \<in> set [?w1, ?w14, ?au, ?bb]. is_map source \<and> non_negative source"
    by (simp add: is_map_def non_negative_def zero_number_def)
  note t = merge_monotone [of ?w1 ?w14 ?au ?bb "''9988''"]
  from t h have "map_get (merge_season ?w1 ?w14 ?au ?bb) ''9988'' =
          (case List.map_filter (\<lambda>source. map_get source ''9988'') [?w1, ?w14, ?au, ?bb] of
             [] \<Rightarrow> None | vs \<Rightarrow> Some (Max (set vs)))"
    by blast
  then have "map_get (merge_season ?w1 ?w14 ?au ?bb) ''9988'' = Some (Finite 1500000)"
    by (simp add: List.map_filter_simps map_get_def)
  then show ?thesis
    using h by (simp add: map_get_def)
qed

section \<open>Properties of formatName and normalizePosition\<close>

lemma match_name_no_comma: "CHR '','' \<notin> set s \<Longrightarrow> match_name s = None"
proof -
  assume "CHR '','' \<notin> set s"
  then have d: "dropWhile (\<lambda>c. c \<noteq> CHR '','') s = []"
    by (auto simp: dropWhile_eq_Nil_conv)
  show ?thesis
    unfolding match_name_def Let_def d by simp
qed

text \<open>
  Claim C6. \<open>formatName("Smith, John")\<close> is \<open>"John Smith"\<close>; a name that is not
  empty and has no comma, such as \<open>"Buffalo Bills"\<close>, comes back unchanged; a name that
  is \<open>null\<close>, missing or empty gives \<open>"Unknown"\<close>.
\<close>

theorem formatName_round_trip:
  "formatName (Some ''Smith, John'') = ''John Smith''
   \<and> formatName (Some ''Buffalo Bills'') = ''Buffalo Bills''
   \<and> (\<forall>mflName. mflName \<noteq> [] \<and> CHR '','' \<notin> set mflName \<longrightarrow> formatName (Some mflName) = mflName)
   \<and> formatName None = ''Unknown''
   \<and> formatName (Some []) = ''Unknown''"
proof (intro conjI allI impI)
  show "formatName (Some ''Smith, John'') = ''John Smith''"
    by (simp add: formatName_def match_name_def match_dot_plus_end_def is_space_def
        is_line_terminator_def trim_def)
  show "formatName (Some ''Buffalo Bills'') = ''Buffalo Bills''"
    by (simp add: formatName_def match_name_def)
  show "formatName None = ''Unknown''" and "formatName (Some []) = ''Unknown''"
    by (simp_all add: formatName_def)
next
  fix mflName :: string
  assume "mflName \<noteq> [] \<and> CHR '','' \<notin> set mflName"
  then show "formatName (Some mflName) = mflName"
    by (simp add: formatName_def match_name_no_comma)
qed

theorem formatName_round_trip_witness:
  "''Kansas City Chiefs'' \<noteq> [] \<and> CHR '','' \<notin> set ''Kansas City Chiefs''
   \<and> formatName (Some ''Kansas City Chiefs'') = ''Kansas City Chiefs''"
proof -
  have h: "''Kansas City Chiefs'' \<noteq> [] \<and> CHR '','' \<notin> set ''Kansas City Chiefs''"
    by simp
  from formatName_round_trip h show ?thesis
    by blast
qed

lemma toUpperCase_EXCLUDED:
  "map toUpperCase EXCLUDED_POSITIONS =
     [''TMWR'', ''TMRB'', ''TMDL'', ''TMTE'', ''TMQB'', ''TMPK'', ''TMPN'', ''TMLB'', ''TMDB'',
      ''ST'', ''OFF'', ''HB'', ''CB'', ''DB'', ''DL'', ''LB'', ''S'', ''DE'', ''DT'', ''FB'']"
  by (simp add: EXCLUDED_POSITIONS_def toUpperCase_def upper_char_def)

lemma excluded_not_recognized:
  "toUpperCase pos \<in> toUpperCase ` set EXCLUDED_POSITIONS \<Longrightarrow> toUpperCase pos \<notin> set recognized"
proof -
  assume "toUpperCase pos \<in> toUpperCase ` set EXCLUDED_POSITIONS"
  then have "toUpperCase pos \<in> set (map toUpperCase EXCLUDED_POSITIONS)"
    by simp
  then show ?thesis
    unfolding toUpperCase_EXCLUDED recognized_def by auto
qed

lemma toUpperCase_Nil: "toUpperCase pos = [] \<longleftrightarrow> pos = []"
  by (simp add: toUpperCase_def)

lemma normalizePosition_unrecognized:
  "toUpperCase pos \<notin> set recognized \<Longrightarrow> normalizePosition (Some pos) = None"
  by (simp add: normalizePosition_def recognized_def Let_def)

lemma normalizePosition_recognized:
  assumes "toUpperCase pos \<in> set recognized"
  shows "normalizePosition (Some pos) =
           (if toUpperCase pos = ''DEF'' then Some ''Def''
            else if toUpperCase pos = ''K'' then Some ''PK''
            else Some (toUpperCase pos))"
proof -
  have "pos \<notin> set EXCLUDED_POSITIONS"
    using assms excluded_not_recognized [of pos] by blast
  moreover have "pos \<noteq> []"
    using assms toUpperCase_Nil [of pos] by (auto simp: recognized_def)
  ultimately show ?thesis
    using assms by (auto simp: normalizePosition_def recognized_def Let_def)
qed

text \<open>
  Claim C7. \<open>normalizePosition\<close> does not look at the case of the letters: \<open>"k"\<close>
  gives \<open>PK\<close>, \<open>"DEF"\<close> gives \<open>Def\<close>, QB, RB, WR and TE in any case give their
  upper-case name; a code of the deny-list in any case (\<open>"CB"\<close>) and every other string
  that is not recognized (\<open>"XYZ"\<close>) give \<open>null\<close>; the result is \<open>null\<close> or one of
  the six positions.
\<close>

theorem normalizePosition_closed:
  "normalizePosition (Some ''k'') = Some ''PK''
   \<and> normalizePosition (Some ''DEF'') = Some ''Def''
   \<and> (\<forall>pos. toUpperCase pos \<in> set [''QB'', ''RB'', ''WR'', ''TE''] \<longrightarrow>
         normalizePosition (Some pos) = Some (toUpperCase pos))
   \<and> (\<forall>pos. toUpperCase pos \<in> set [''K'', ''PK''] \<longrightarrow> normalizePosition (Some pos) = Some ''PK'')
   \<and> (\<forall>pos. toUpperCase pos = ''DEF'' \<longrightarrow> normalizePosition (Some pos) = Some ''Def'')
   \<and> (\<forall>pos. toUpperCase pos \<in> toUpperCase ` set EXCLUDED_POSITIONS \<longrightarrow>
         normalizePosition (Some pos) = None)
   \<and> normalizePosition (Some ''CB'') = None
   \<and> normalizePosition (Some ''XYZ'') = None
   \<and> (\<forall>pos. toUpperCase pos \<notin> set [''QB'', ''RB'', ''WR'', ''TE'', ''PK'', ''K'', ''DEF''] \<longrightarrow>
         normalizePosition (Some pos) = None)
   \<and> normalizePosition None = None
   \<and> (\<forall>pos. normalizePosition pos = None \<or> (\<exists>p \<in> set POSITIONS. normalizePosition pos = Some p))"
proof (intro conjI allI impI)
  show "normalizePosition (Some ''k'') = Some ''PK''"
    by (simp add: normalizePosition_def EXCLUDED_POSITIONS_def toUpperCase_def upper_char_def)
  show "normalizePosition (Some ''DEF'') = Some ''Def''"
    by (simp add: normalizePosition_def EXCLUDED_POSITIONS_def toUpperCase_def upper_char_def)
  show "normalizePosition (Some ''CB'') = None"
    by (simp add: normalizePosition_def EXCLUDED_POSITIONS_def)
  show "normalizePosition (Some ''XYZ'') = None"
    by (simp add: normalizePosition_def EXCLUDED_POSITIONS_def toUpperCase_def upper_char_def)
  show "normalizePosition None = None"
    by (simp add: normalizePosition_def)
next
  fix pos
  assume "toUpperCase pos \<in> set [''QB'', ''RB'', ''WR'', ''TE'']"
  then show "normalizePosition (Some pos) = Some (toUpperCase pos)"
    using normalizePosition_recognized [of pos] by (auto simp: recognized_def)
next
  fix pos
  assume "toUpperCase pos \<in> set [''K'', ''PK'']"
  then show "normalizePosition (Some pos) = Some ''PK''"
    using normalizePosition_recognized [of pos] by (auto simp: recognized_def)
next
  fix pos
  assume "toUpperCase pos = ''DEF''"
  then show "normalizePosition (Some pos) = Some ''Def''"
    using normalizePosition_recognized [of pos] by (auto simp: recognized_def)
next
  fix pos
  assume "toUpperCase pos \<in> toUpperCase ` set EXCLUDED_POSITIONS"
  then show "normalizePosition (Some pos) = None"
    using excluded_not_recognized normalizePosition_unrecognized by blast
next
  fix pos
  assume "toUpperCase pos \<notin> set [''QB'', ''RB'', ''WR'', ''TE'', ''PK'', ''K'', ''DEF'']"
  then show "normalizePosition (Some pos) = None"
    using normalizePosition_unrecognized [of pos] by (simp add: recognized_def)
next
  fix pos
  show "normalizePosition pos = None \<or> (\<exists>p \<in> set POSITIONS. normalizePosition pos = Some p)"
    by (cases pos) (auto simp: normalizePosition_def POSITIONS_def Let_def)
qed

theorem normalizePosition_closed_witness:
  "toUpperCase ''wr'' \<in> set [''QB'', ''RB'', ''WR'', ''TE'']
   \<and> normalizePosition (Some ''wr'') = Some ''WR''
   \<and> toUpperCase ''Pk'' \<in> set [''K'', ''PK'']
   \<and> normalizePosition (Some ''Pk'') = Some ''PK''
   \<and> toUpperCase ''def'' = ''DEF''
   \<and> normalizePosition (Some ''def'') = Some ''Def''
   \<and> toUpperCase ''tmwr'' \<in> toUpperCase ` set EXCLUDED_POSITIONS
   \<and> normalizePosition (Some ''tmwr'') = None
   \<and> toUpperCase ''Coach'' \<notin> set [''QB'', ''RB'', ''WR'', ''TE'', ''PK'', ''K'', ''DEF'']
   \<and> normalizePosition (Some ''Coach'') = None"
proof -
  have u: "toUpperCase ''wr'' = ''WR''" "toUpperCase ''Pk'' = ''PK''" "toUpperCase ''def'' = ''DEF''"
    "toUpperCase ''tmwr'' = toUpperCase ''TMWR''" "toUpperCase ''Coach'' = ''COACH''"
    by (simp_all add: toUpperCase_def upper_char_def)
  have a: "toUpperCase ''wr'' \<in> set [''QB'', ''RB'', ''WR'', ''TE'']"
    and b: "toUpperCase ''Pk'' \<in> set [''K'', ''PK'']"
    and d: "toUpperCase ''Coach'' \<notin> set [''QB'', ''RB'', ''WR'', ''TE'', ''PK'', ''K'', ''DEF'']"
    by (simp_all add: u)
  have c: "toUpperCase ''tmwr'' \<in> toUpperCase ` set EXCLUDED_POSITIONS"
    unfolding u by (rule imageI) (simp add: EXCLUDED_POSITIONS_def)
  note t = normalizePosition_closed
  from t a have a': "normalizePosition (Some ''wr'') = Some (toUpperCase ''wr'')" by blast
  from t b have b': "normalizePosition (Some ''Pk'') = Some ''PK''" by blast
  from t u(3) have e': "normalizePosition (Some ''def'') = Some ''Def''" by blast
  from t c have c': "normalizePosition (Some ''tmwr'') = None" by blast
  from t d have d': "normalizePosition (Some ''Coach'') = None" by blast
  from a b c d a' b' c' d' e' u(1) u(3) show ?thesis
    by simp
qed

section \<open>Properties of the waiver extractor\<close>


lemma mergeInto_append: "mergeInto m (a @ b) = mergeInto (mergeInto m a) b"
  by (induction a arbitrary: m) (auto simp: Let_def)

lemma record_ids_mergeInto:
  "foldl (\<lambda>m playerId. map_set m playerId (max (or_zero (map_get m playerId)) bid)) salaryMap ids
     = mergeInto salaryMap (map (\<lambda>playerId. (playerId, bid)) ids)"
  by (induction ids arbitrary: salaryMap) (simp_all add: Let_def)

lemma split_Nil: "split sep [] = [[]]"
  by simp

lemma bbid_transaction_mergeInto:
  "bbid_transaction salaryMap t = mergeInto salaryMap (waiver_claims (transaction t))"
proof (cases "transaction t")
  case None
  then show ?thesis
    by (simp add: bbid_transaction_def waiver_claims_def)
next
  case (Some s)
  show ?thesis
  proof (cases "parseFloat (Some (split (CHR ''|'') s ! 1))")
    case None
    then show ?thesis
      using Some
      by (simp add: bbid_transaction_def waiver_claims_def Let_def or_zero_None)
  next
    case (Some bid)
    then show ?thesis
      using \<open>transaction t = Some s\<close>
      by (simp add: bbid_transaction_def waiver_claims_def Let_def or_zero_Some record_ids_mergeInto)
  qed
qed

lemma bbid_salaryMap_mergeInto:
  "foldl bbid_transaction m transactions
     = mergeInto m (concat (map (\<lambda>t. waiver_claims (transaction t)) transactions))"
  by (induction transactions arbitrary: m) (simp_all add: bbid_transaction_mergeInto mergeInto_append)








section \<open>Properties of rankByPosition\<close>

lemma map_fst_map_set: "k \<in> keys m \<Longrightarrow> map fst (map_set m k v) = map fst m"
proof (induction m)
  case Nil
  then show ?case by (simp add: keys_def)
next
  case (Cons e m)
  obtain k' v' where e: "e = (k', v')" by (cases e)
  show ?case
  proof (cases "k' = k")
    case True
    then show ?thesis by (simp add: e)
  next
    case False
    with Cons.prems have "k \<in> keys m"
      by (simp add: keys_def e)
    with Cons.IH False show ?thesis
      by (simp add: e)
  qed
qed

lemma map_of_map_set: "map_of (map_set m k v) = (map_of m)(k \<mapsto> v)"
  using map_get_map_set [of m k v] by (auto simp: map_get_def fun_eq_iff)

lemma qualifying_Nil: "qualifying [] playerMap pos = []"
  by (simp add: qualifying_def List.map_filter_simps)

lemma qualifying_Cons:
  "qualifying ((playerId, amount) # rest) playerMap pos =
     (case map_get playerMap playerId of
        None \<Rightarrow> qualifying rest playerMap pos
      | Some m \<Rightarrow>
          if meta.position m = pos
          then \<lparr>entry.name = meta.name m, salary = amount\<rparr> # qualifying rest playerMap pos
          else qualifying rest playerMap pos)"
  by (simp add: qualifying_def List.map_filter_simps split: option.splits)

lemma group_player_cases:
  "group_player groups playerMap (playerId, amount) =
     (case map_get playerMap playerId of
        None \<Rightarrow> Inr groups
      | Some m \<Rightarrow>
          (case map_of groups (meta.position m) of
             Some bucket \<Rightarrow>
               Inr (map_set groups (meta.position m)
                      (bucket @ [\<lparr>entry.name = meta.name m, salary = amount\<rparr>]))
           | None \<Rightarrow>
               if meta.position m \<in> set object_prototype_keys
               then Inl (TypeError ''groups[meta.position].push'')
               else Inr groups))"
  by (simp add: group_player_def get_property_def split: option.splits)

lemma group_player_Inr:
  assumes "group_player groups playerMap (playerId, amount) = Inr groups'"
  shows "map fst groups' = map fst groups
    \<and> (\<forall>pos. map_of groups' pos =
          (case map_of groups pos of
             None \<Rightarrow> None
           | Some bucket \<Rightarrow> Some (bucket @ qualifying [(playerId, amount)] playerMap pos)))"
proof (cases "map_get playerMap playerId")
  case None
  with assms show ?thesis
    by (auto simp: group_player_cases qualifying_Cons qualifying_Nil split: option.splits)
next
  case (Some m)
  show ?thesis
  proof (cases "map_of groups (meta.position m)")
    case None
    with assms Some have "groups' = groups"
      by (simp add: group_player_cases split: if_splits)
    with None Some show ?thesis
      by (auto simp: qualifying_Cons qualifying_Nil split: option.splits)
  next
    case (Some bucket)
    with assms \<open>map_get playerMap playerId = Some m\<close>
    have g: "groups' = map_set groups (meta.position m)
                (bucket @ [\<lparr>entry.name = meta.name m, salary = amount\<rparr>])"
      by (simp add: group_player_cases)
    have "meta.position m \<in> keys groups"
      using Some by (metis map_get_None_iff map_get_def option.distinct(1))
    then have "map fst groups' = map fst groups"
      by (simp add: g map_fst_map_set)
    moreover have "\<forall>pos. map_of groups' pos =
          (case map_of groups pos of
             None \<Rightarrow> None
           | Some bucket \<Rightarrow> Some (bucket @ qualifying [(playerId, amount)] playerMap pos))"
      using Some \<open>map_get playerMap playerId = Some m\<close>
      by (auto simp: g map_of_map_set qualifying_Cons qualifying_Nil split: option.splits)
    ultimately show ?thesis by blast
  qed
qed

lemma qualifying_append_one:
  "qualifying (e # rest) playerMap pos = qualifying [e] playerMap pos @ qualifying rest playerMap pos"
  by (cases e) (simp add: qualifying_Cons qualifying_Nil split: option.splits)

lemma group_players_Inr:
  "group_players groups playerMap salaryMap = Inr groups' \<Longrightarrow>
     map fst groups' = map fst groups
     \<and> (\<forall>pos. map_of groups' pos =
          (case map_of groups pos of
             None \<Rightarrow> None
           | Some bucket \<Rightarrow> Some (bucket @ qualifying salaryMap playerMap pos)))"
proof (induction salaryMap arbitrary: groups)
  case Nil
  then show ?case
    by (auto simp: qualifying_Nil split: option.splits)
next
  case (Cons e rest)
  obtain playerId amount where e: "e = (playerId, amount)" by (cases e)
  from Cons.prems obtain mid where
    m1: "group_player groups playerMap (playerId, amount) = Inr mid" and
    m2: "group_players mid playerMap rest = Inr groups'"
    by (auto simp: e split: sum.splits)
  note a = group_player_Inr [OF m1] and b = Cons.IH [OF m2]
  have "map fst groups' = map fst groups"
    using a b by simp
  moreover have "map_of groups' pos =
          (case map_of groups pos of
             None \<Rightarrow> None
           | Some bucket \<Rightarrow> Some (bucket @ qualifying (e # rest) playerMap pos))" for pos
    using a b qualifying_append_one [of e rest playerMap pos]
    by (simp add: e split: option.splits)
  ultimately show ?case by blast
qed


lemma group_players_total:
  assumes "\<forall>playerId m. map_get playerMap playerId = Some m \<longrightarrow>
             meta.position m \<in> fst ` set groups \<or> meta.position m \<notin> set object_prototype_keys"
  shows "\<exists>groups'. group_players groups playerMap salaryMap = Inr groups'"
  using assms
proof (induction salaryMap arbitrary: groups)
  case Nil
  then show ?case by simp
next
  case (Cons e rest)
  obtain playerId amount where e: "e = (playerId, amount)" by (cases e)
  have "\<exists>mid. group_player groups playerMap (playerId, amount) = Inr mid"
  proof (cases "map_get playerMap playerId")
    case None
    then show ?thesis by (simp add: group_player_cases)
  next
    case (Some m)
    with Cons.prems have "meta.position m \<in> fst ` set groups \<or> meta.position m \<notin> set object_prototype_keys"
      by blast
    then show ?thesis
      using Some by (auto simp: group_player_cases map_of_eq_None_iff split: option.splits)
  qed
  then obtain mid where m1: "group_player groups playerMap (playerId, amount) = Inr mid"
    by blast
  have "fst ` set mid = fst ` set groups"
    using group_player_Inr [OF m1] by (metis list.set_map)
  with Cons.prems have "\<exists>groups'. group_players mid playerMap rest = Inr groups'"
    by (intro Cons.IH) simp
  then show ?case
    by (simp add: e m1)
qed

lemma initial_groups:
  "map_of (map (\<lambda>pos. (pos, [])) POSITIONS) pos = (if pos \<in> set POSITIONS then Some [] else None)"
  by (simp add: POSITIONS_def)

lemma rankByPosition_Inr:
  assumes "rankByPosition salaryMap playerMap = Inr ranked"
  shows "ranked = map (\<lambda>pos. (pos, take TOP_N (array_sort compare_salary (qualifying salaryMap playerMap pos))))
                    POSITIONS"
proof -
  from assms obtain groups where
    g: "group_players (map (\<lambda>pos. (pos, [])) POSITIONS) playerMap salaryMap = Inr groups" and
    r: "ranked = map (\<lambda>pos. (pos, take TOP_N (array_sort compare_salary (group_of groups pos)))) POSITIONS"
    by (auto simp: rankByPosition_def split: sum.splits)
  have "group_of groups pos = qualifying salaryMap playerMap pos" if "pos \<in> set POSITIONS" for pos
    using group_players_Inr [OF g] that by (simp add: group_of_def initial_groups)
  then show ?thesis
    unfolding r by simp
qed

lemma rankByPosition_total:
  assumes "\<forall>m \<in> snd ` set playerMap. meta.position m \<notin> set object_prototype_keys"
  shows "\<exists>ranked. rankByPosition salaryMap playerMap = Inr ranked"
proof -
  have "\<forall>playerId m. map_get playerMap playerId = Some m \<longrightarrow>
      meta.position m \<in> fst ` set (map (\<lambda>pos. (pos, [])) POSITIONS)
      \<or> meta.position m \<notin> set object_prototype_keys"
  proof (intro allI impI)
    fix playerId m
    assume "map_get playerMap playerId = Some m"
    then have "(playerId, m) \<in> set playerMap"
      by (simp add: map_get_def map_of_SomeD)
    then have "m \<in> snd ` set playerMap"
      by force
    with assms show "meta.position m \<in> fst ` set (map (\<lambda>pos. (pos, [])) POSITIONS)
      \<or> meta.position m \<notin> set object_prototype_keys"
      by blast
  qed
  from group_players_total [OF this, of salaryMap] obtain groups where
    "group_players (map (\<lambda>pos. (pos, [])) POSITIONS) playerMap salaryMap = Inr groups"
    by blast
  then show ?thesis
    by (simp add: rankByPosition_def)
qed

lemma minus_number_positive:
  "(0 < (case minus_number b a of None \<Rightarrow> 0 | Some v \<Rightarrow> v)) = (a < b)"
  by (cases a; cases b) (simp_all add: zero_number_def less_number_def)

lemma compare_salary_positive: "0 < compare_salary x y \<longleftrightarrow> entry.salary x < entry.salary y"
  by (simp add: compare_salary_def minus_number_positive)

lemma mset_insert_sorted: "mset (insert_sorted compare x ys) = add_mset x (mset ys)"
  by (induction ys) simp_all

lemma mset_array_sort: "mset (array_sort compare xs) = mset xs"
  by (induction xs) (simp_all add: array_sort_def mset_insert_sorted)

lemma set_insert_sorted: "set (insert_sorted compare x ys) = insert x (set ys)"
  using mset_insert_sorted [of compare x ys] by (metis set_mset_add_mset_insert set_mset_mset)

lemma sorted_insert_sorted:
  "sorted_wrt (\<lambda>a b. entry.salary b \<le> entry.salary a) ys \<Longrightarrow>
     sorted_wrt (\<lambda>a b. entry.salary b \<le> entry.salary a) (insert_sorted compare_salary x ys)"
proof (induction ys)
  case Nil
  then show ?case by simp
next
  case (Cons y ys)
  show ?case
  proof (cases "0 < compare_salary x y")
    case True
    then have "entry.salary x \<le> entry.salary y"
      by (simp add: compare_salary_positive)
    with Cons True show ?thesis
      by (auto simp: set_insert_sorted)
  next
    case False
    then have xy: "entry.salary y \<le> entry.salary x"
      by (simp add: compare_salary_positive)
    have "\<forall>z \<in> set ys. entry.salary z \<le> entry.salary x"
      using Cons.prems xy by auto
    with Cons.prems xy False show ?thesis
      by simp
  qed
qed

lemma sorted_array_sort:
  "sorted_wrt (\<lambda>a b. entry.salary b \<le> entry.salary a) (array_sort compare_salary xs)"
  by (induction xs) (simp_all add: array_sort_def sorted_insert_sorted)

lemma filter_insert_sorted:
  "filter (\<lambda>e. entry.salary e = v) (insert_sorted compare_salary x ys) =
     (if entry.salary x = v then x # filter (\<lambda>e. entry.salary e = v) ys
      else filter (\<lambda>e. entry.salary e = v) ys)"
  by (induction ys) (auto simp: compare_salary_positive)

lemma stable_array_sort:
  "filter (\<lambda>e. entry.salary e = v) (array_sort compare_salary xs) = filter (\<lambda>e. entry.salary e = v) xs"
  by (induction xs) (simp_all add: array_sort_def filter_insert_sorted)

lemma sorted_wrt_take: "sorted_wrt P xs \<Longrightarrow> sorted_wrt P (take n xs)"
  by (metis append_take_drop_id sorted_wrt_append)

text \<open>
  Claim C3. In the result of \<open>rankByPosition\<close>, whatever the salary mapping and the
  metadata mapping, the sequence of every position has at most \<open>TOP_N\<close> = 30 entries and
  is sorted with no amount below a later one. It is the first \<open>TOP_N\<close> entries of a
  sequence that holds the qualifying players of the position, is sorted in the same way
  and keeps the entries of one amount in the order the salary mapping lists them: the sort
  is stable.
\<close>

theorem rankByPosition_bounded_sorted:
  "rankByPosition salaryMap playerMap = Inr ranked \<longrightarrow>
     TOP_N = 30 \<and>
     (\<forall>(pos, bucket) \<in> set ranked.
        length bucket \<le> TOP_N
        \<and> sorted_wrt (\<lambda>a b. entry.salary b \<le> entry.salary a) bucket
        \<and> (\<exists>sorted_group.
              bucket = take TOP_N sorted_group
              \<and> mset sorted_group = mset (qualifying salaryMap playerMap pos)
              \<and> sorted_wrt (\<lambda>a b. entry.salary b \<le> entry.salary a) sorted_group
              \<and> (\<forall>v. filter (\<lambda>e. entry.salary e = v) sorted_group =
                       filter (\<lambda>e. entry.salary e = v) (qualifying salaryMap playerMap pos))))"
proof (intro impI conjI)
  show "TOP_N = 30"
    by (simp add: TOP_N_def)
next
  assume "rankByPosition salaryMap playerMap = Inr ranked"
  then have r: "ranked =
      map (\<lambda>pos. (pos, take TOP_N (array_sort compare_salary (qualifying salaryMap playerMap pos))))
        POSITIONS"
    by (rule rankByPosition_Inr)
  show "\<forall>(pos, bucket) \<in> set ranked.
        length bucket \<le> TOP_N
        \<and> sorted_wrt (\<lambda>a b. entry.salary b \<le> entry.salary a) bucket
        \<and> (\<exists>sorted_group.
              bucket = take TOP_N sorted_group
              \<and> mset sorted_group = mset (qualifying salaryMap playerMap pos)
              \<and> sorted_wrt (\<lambda>a b. entry.salary b \<le> entry.salary a) sorted_group
              \<and> (\<forall>v. filter (\<lambda>e. entry.salary e = v) sorted_group =
                       filter (\<lambda>e. entry.salary e = v) (qualifying salaryMap playerMap pos)))"
  proof (intro ballI, clarify)
    fix pos bucket
    assume "(pos, bucket) \<in> set ranked"
    then have b: "bucket = take TOP_N (array_sort compare_salary (qualifying salaryMap playerMap pos))"
      unfolding r by auto
    let ?s = "array_sort compare_salary (qualifying salaryMap playerMap pos)"
    have "length bucket \<le> TOP_N"
      by (simp add: b)
    moreover have "sorted_wrt (\<lambda>a b. entry.salary b \<le> entry.salary a) bucket"
      unfolding b by (intro sorted_wrt_take sorted_array_sort)
    moreover have "bucket = take TOP_N ?s
        \<and> mset ?s = mset (qualifying salaryMap playerMap pos)
        \<and> sorted_wrt (\<lambda>a b. entry.salary b \<le> entry.salary a) ?s
        \<and> (\<forall>v. filter (\<lambda>e. entry.salary e = v) ?s =
                 filter (\<lambda>e. entry.salary e = v) (qualifying salaryMap playerMap pos))"
      by (simp add: b mset_array_sort sorted_array_sort stable_array_sort)
    ultimately show "length bucket \<le> TOP_N
        \<and> sorted_wrt (\<lambda>a b. entry.salary b \<le> entry.salary a) bucket
        \<and> (\<exists>sorted_group.
              bucket = take TOP_N sorted_group
              \<and> mset sorted_group = mset (qualifying salaryMap playerMap pos)
              \<and> sorted_wrt (\<lambda>a b. entry.salary b \<le> entry.salary a) sorted_group
              \<and> (\<forall>v. filter (\<lambda>e. entry.salary e = v) sorted_group =
                       filter (\<lambda>e. entry.salary e = v) (qualifying salaryMap playerMap pos)))"
      by blast
  qed
qed

text \<open>
  Claim C4. The result of \<open>rankByPosition\<close> has the six tracked positions as its keys, in
  the order of \<open>POSITIONS\<close>, whatever the input; a position for which no player qualifies
  has the empty sequence. The function returns a result for every metadata mapping whose
  positions are tracked positions (for every one with no position that names a property
  of \<open>Object.prototype\<close>).
\<close>

theorem rankByPosition_empty_buckets:
  "(rankByPosition salaryMap playerMap = Inr ranked \<longrightarrow>
      map fst ranked = [''QB'', ''RB'', ''WR'', ''TE'', ''PK'', ''Def'']
      \<and> (\<forall>pos \<in> set POSITIONS. \<exists>bucket. map_of ranked pos = Some bucket)
      \<and> (\<forall>pos \<in> set POSITIONS. qualifying salaryMap playerMap pos = [] \<longrightarrow> map_of ranked pos = Some []))
   \<and> ((\<forall>m \<in> snd ` set playerMap. meta.position m \<notin> set object_prototype_keys) \<longrightarrow>
        (\<exists>ranked. rankByPosition salaryMap playerMap = Inr ranked))
   \<and> (tracked playerMap \<longrightarrow> (\<exists>ranked. rankByPosition salaryMap playerMap = Inr ranked))"
proof (intro conjI impI)
  assume "rankByPosition salaryMap playerMap = Inr ranked"
  then have r: "ranked =
      map (\<lambda>pos. (pos, take TOP_N (array_sort compare_salary (qualifying salaryMap playerMap pos))))
        POSITIONS"
    by (rule rankByPosition_Inr)
  show "map fst ranked = [''QB'', ''RB'', ''WR'', ''TE'', ''PK'', ''Def'']"
    by (simp add: r POSITIONS_def)
  have m: "map_of ranked pos =
      Some (take TOP_N (array_sort compare_salary (qualifying salaryMap playerMap pos)))"
    if "pos \<in> set POSITIONS" for pos
    unfolding r using that by (simp add: map_of_map_restrict)
  show "\<forall>pos \<in> set POSITIONS. \<exists>bucket. map_of ranked pos = Some bucket"
    using m by blast
  show "\<forall>pos \<in> set POSITIONS. qualifying salaryMap playerMap pos = [] \<longrightarrow> map_of ranked pos = Some []"
    using m by (simp add: array_sort_def)
next
  assume "\<forall>m \<in> snd ` set playerMap. meta.position m \<notin> set object_prototype_keys"
  then show "\<exists>ranked. rankByPosition salaryMap playerMap = Inr ranked"
    by (rule rankByPosition_total)
next
  assume t: "tracked playerMap"
  have "\<forall>m \<in> snd ` set playerMap. meta.position m \<notin> set object_prototype_keys"
  proof
    fix m
    assume "m \<in> snd ` set playerMap"
    with t have "meta.position m \<in> set POSITIONS"
      unfolding tracked_def by blast
    then show "meta.position m \<notin> set object_prototype_keys"
      by (auto simp: POSITIONS_def object_prototype_keys_def)
  qed
  then show "\<exists>ranked. rankByPosition salaryMap playerMap = Inr ranked"
    by (rule rankByPosition_total)
qed

lemma normalizePosition_tracked: "normalizePosition p = Some pos \<Longrightarrow> pos \<in> set POSITIONS"
  by (cases p) (auto simp: normalizePosition_def POSITIONS_def Let_def split: if_splits)

lemma set_map_set: "set (map_set m k v) \<subseteq> insert (k, v) (set m)"
  by (induction m) (auto split: if_splits)

lemma tracked_map_set:
  "tracked playerMap \<Longrightarrow> meta.position m \<in> set POSITIONS \<Longrightarrow> tracked (map_set playerMap k m)"
proof -
  assume t: "tracked playerMap" and p: "meta.position m \<in> set POSITIONS"
  show ?thesis
    unfolding tracked_def
  proof
    fix x
    assume "x \<in> snd ` set (map_set playerMap k m)"
    then obtain a where "(a, x) \<in> set (map_set playerMap k m)"
      by auto
    then have "(a, x) = (k, m) \<or> (a, x) \<in> set playerMap"
      using set_map_set [of playerMap k m] by blast
    then have "x = m \<or> x \<in> snd ` set playerMap"
      by force
    with t p show "meta.position x \<in> set POSITIONS"
      unfolding tracked_def by blast
  qed
qed

lemma tracked_player_entry: "tracked playerMap \<Longrightarrow> tracked (player_entry playerMap p)"
  by (auto simp: player_entry_def tracked_map_set normalizePosition_tracked split: option.splits)

lemma tracked_foldl_player_entry:
  "tracked playerMap \<Longrightarrow> tracked (foldl player_entry playerMap players)"
  by (induction players arbitrary: playerMap) (simp_all add: tracked_player_entry)

lemma tracked_players_playerMap: "tracked (players_playerMap players)"
proof -
  have "tracked []"
    by (simp add: tracked_def)
  then show ?thesis
    unfolding players_playerMap_def by (rule tracked_foldl_player_entry)
qed







lemmas rankByPosition_defs = rankByPosition_def group_player_def POSITIONS_def map_get_def
  get_property_def group_of_def array_sort_def compare_salary_def TOP_N_def zero_number_def
  less_number_def

theorem rankByPosition_bounded_sorted_witness:
  "rankByPosition
     [(''13593'', Finite 425000), (''9988'', Finite 1500000), (''14867'', Finite 425000),
      (''777'', Finite 100000)]
     [(''13593'', \<lparr>meta.name = ''John Smith'', position = ''QB''\<rparr>),
      (''9988'', \<lparr>meta.name = ''Ann Lee'', position = ''QB''\<rparr>),
      (''14867'', \<lparr>meta.name = ''Bo Diaz'', position = ''QB''\<rparr>)]
     = Inr [(''QB'', [\<lparr>entry.name = ''Ann Lee'', salary = Finite 1500000\<rparr>,
                      \<lparr>entry.name = ''John Smith'', salary = Finite 425000\<rparr>,
                      \<lparr>entry.name = ''Bo Diaz'', salary = Finite 425000\<rparr>]),
            (''RB'', []), (''WR'', []), (''TE'', []), (''PK'', []), (''Def'', [])]
   \<and> length [\<lparr>entry.name = ''Ann Lee'', salary = Finite 1500000\<rparr>,
              \<lparr>entry.name = ''John Smith'', salary = Finite 425000\<rparr>,
              \<lparr>entry.name = ''Bo Diaz'', salary = Finite 425000\<rparr>] \<le> TOP_N
   \<and> sorted_wrt (\<lambda>a b. entry.salary b \<le> entry.salary a)
        [\<lparr>entry.name = ''Ann Lee'', salary = Finite 1500000\<rparr>,
         \<lparr>entry.name = ''John Smith'', salary = Finite 425000\<rparr>,
         \<lparr>entry.name = ''Bo Diaz'', salary = Finite 425000\<rparr>]"
proof -
  let ?salaryMap = "[(''13593'', Finite 425000), (''9988'', Finite 1500000), (''14867'', Finite 425000),
      (''777'', Finite 100000)]"
  let ?playerMap = "[(''13593'', \<lparr>meta.name = ''John Smith'', position = ''QB''\<rparr>),
      (''9988'', \<lparr>meta.name = ''Ann Lee'', position = ''QB''\<rparr>),
      (''14867'', \<lparr>meta.name = ''Bo Diaz'', position = ''QB''\<rparr>)]"
  let ?qb = "[\<lparr>entry.name = ''Ann Lee'', salary = Finite 1500000\<rparr>,
              \<lparr>entry.name = ''John Smith'', salary = Finite 425000\<rparr>,
              \<lparr>entry.name = ''Bo Diaz'', salary = Finite 425000\<rparr>]"
  let ?ranked = "[(''QB'', ?qb), (''RB'', []), (''WR'', []), (''TE'', []), (''PK'', []), (''Def'', [])]"
  have r: "rankByPosition ?salaryMap ?playerMap = Inr ?ranked"
    by (simp add: rankByPosition_defs)
  note t = rankByPosition_bounded_sorted [of ?salaryMap ?playerMap ?ranked, THEN mp, OF r]
  have m: "(''QB'', ?qb) \<in> set ?ranked"
    by simp
  from t have "\<forall>(pos, bucket) \<in> set ?ranked.
        length bucket \<le> TOP_N
        \<and> sorted_wrt (\<lambda>a b. entry.salary b \<le> entry.salary a) bucket
        \<and> (\<exists>sorted_group.
              bucket = take TOP_N sorted_group
              \<and> mset sorted_group = mset (qualifying ?salaryMap ?playerMap pos)
              \<and> sorted_wrt (\<lambda>a b. entry.salary b \<le> entry.salary a) sorted_group
              \<and> (\<forall>v. filter (\<lambda>e. entry.salary e = v) sorted_group =
                       filter (\<lambda>e. entry.salary e = v) (qualifying ?salaryMap ?playerMap pos)))"
    by (rule conjunct2)
  from bspec [OF this m]
  have "length ?qb \<le> TOP_N \<and> sorted_wrt (\<lambda>a b. entry.salary b \<le> entry.salary a) ?qb"
    by (simp only: prod.case)
  with r show ?thesis
    by blast
qed

theorem rankByPosition_empty_buckets_witness:
  "rankByPosition [(''13593'', Finite 425000), (''777'', Finite 100000)]
     [(''13593'', \<lparr>meta.name = ''John Smith'', position = ''QB''\<rparr>)]
     = Inr [(''QB'', [\<lparr>entry.name = ''John Smith'', salary = Finite 425000\<rparr>]),
            (''RB'', []), (''WR'', []), (''TE'', []), (''PK'', []), (''Def'', [])]
   \<and> ''Def'' \<in> set POSITIONS
   \<and> qualifying [(''13593'', Finite 425000), (''777'', Finite 100000)]
        [(''13593'', \<lparr>meta.name = ''John Smith'', position = ''QB''\<rparr>)] ''Def'' = []
   \<and> map_of [(''QB'', [\<lparr>entry.name = ''John Smith'', salary = Finite 425000\<rparr>]),
            (''RB'', []), (''WR'', []), (''TE'', []), (''PK'', []), (''Def'', [])] ''Def'' = Some []
   \<and> tracked [(''13593'', \<lparr>meta.name = ''John Smith'', position = ''QB''\<rparr>)]"
proof -
  let ?salaryMap = "[(''13593'', Finite 425000), (''777'', Finite 100000)]"
  let ?playerMap = "[(''13593'', \<lparr>meta.name = ''John Smith'', position = ''QB''\<rparr>)]"
  let ?ranked = "[(''QB'', [\<lparr>entry.name = ''John Smith'', salary = Finite 425000\<rparr>]),
            (''RB'', []), (''WR'', []), (''TE'', []), (''PK'', []), (''Def'', [])]"
  have t: "tracked ?playerMap"
    by (simp add: tracked_def POSITIONS_def)
  have r': "rankByPosition ?salaryMap ?playerMap = Inr ?ranked"
    by (simp add: rankByPosition_defs)
  have p: "''Def'' \<in> set POSITIONS"
    by (simp add: POSITIONS_def)
  have q: "qualifying ?salaryMap ?playerMap ''Def'' = []"
    by (simp add: qualifying_def List.map_filter_simps map_get_def)
  from rankByPosition_empty_buckets [of ?salaryMap ?playerMap ?ranked] r' p q
  have "map_of ?ranked ''Def'' = Some []"
    by blast
  with r' p q t show ?thesis
    by blast
qed



section \<open>Properties of fetchJson\<close>

lemma fetch_count_Fetch: "fetch_count (w @ [Fetch url]) = Suc (fetch_count w)"
  by (simp add: fetch_count_def)

lemma fetch_count_delay: "fetch_count (delay ms w) = fetch_count w"
  by (simp add: fetch_count_def delay_def)

lemma fetchJson_loop_3:
  "fetchJson_loop net url 3 w =
     (case try_reply (net (fetch_count w) url) of
        Inr data \<Rightarrow> (Inr data, w @ [Fetch url])
      | Inl err \<Rightarrow> (Inl (FetchFailed 3 url err), w @ [Fetch url]))"
  using fetchJson_loop.simps [of net url 3 w]
  by (simp add: MAX_RETRIES_def Let_def split: sum.splits del: fetchJson_loop.simps)

lemma fetchJson_loop_2:
  "fetchJson_loop net url 2 w =
     (case try_reply (net (fetch_count w) url) of
        Inr data \<Rightarrow> (Inr data, w @ [Fetch url])
      | Inl err \<Rightarrow> fetchJson_loop net url 3 (w @ [Fetch url, Delay (RETRY_BACKOFF_MS * 2)]))"
  using fetchJson_loop.simps [of net url 2 w]
  by (simp add: MAX_RETRIES_def Let_def delay_def split: sum.splits del: fetchJson_loop.simps)

lemma fetchJson_loop_1:
  "fetchJson_loop net url 1 w =
     (case try_reply (net (fetch_count w) url) of
        Inr data \<Rightarrow> (Inr data, w @ [Fetch url])
      | Inl err \<Rightarrow> fetchJson_loop net url 2 (w @ [Fetch url, Delay (RETRY_BACKOFF_MS * 1)]))"
  using fetchJson_loop.simps [of net url 1 w]
  by (simp add: MAX_RETRIES_def Let_def delay_def numeral_2_eq_2 split: sum.splits
      del: fetchJson_loop.simps)

lemma fetch_count_retry:
  "fetch_count (w @ [Fetch url, Delay ms]) = Suc (fetch_count w)"
  by (simp add: fetch_count_def)

lemma fetchJson_unrolled:
  "fetchJson net url w =
     (case try_reply (net (fetch_count w) url) of
        Inr data \<Rightarrow> (Inr data, w @ [Fetch url])
      | Inl first \<Rightarrow>
          (case try_reply (net (fetch_count w + 1) url) of
             Inr data \<Rightarrow> (Inr data, w @ [Fetch url, Delay (RETRY_BACKOFF_MS * 1), Fetch url])
           | Inl second \<Rightarrow>
               (case try_reply (net (fetch_count w + 2) url) of
                  Inr data \<Rightarrow>
                    (Inr data,
                     w @ [Fetch url, Delay (RETRY_BACKOFF_MS * 1), Fetch url,
                          Delay (RETRY_BACKOFF_MS * 2), Fetch url])
                | Inl third \<Rightarrow>
                    (Inl (FetchFailed 3 url third),
                     w @ [Fetch url, Delay (RETRY_BACKOFF_MS * 1), Fetch url,
                          Delay (RETRY_BACKOFF_MS * 2), Fetch url]))))"
  unfolding fetchJson_def fetchJson_loop_1 fetchJson_loop_2 fetchJson_loop_3
  by (simp add: fetch_count_retry fetch_count_def split: sum.splits del: fetchJson_loop.simps)

lemma fetchJson_fetch_count:
  "fetch_count w < fetch_count (snd (fetchJson net url w))
   \<and> fetch_count (snd (fetchJson net url w)) \<le> fetch_count w + 3"
  unfolding fetchJson_unrolled
  by (simp add: fetch_count_def split: sum.splits)

text \<open>
  Claim C8. \<open>fetchJson\<close> calls \<open>fetch\<close> at most \<open>MAX_RETRIES\<close> = 3 times. A rejected
  \<open>fetch\<close>, a response that is not \<open>ok\<close> and a body with an \<open>error\<close> property all fail
  the attempt, and a failed attempt that is not the third is followed by a pause of
  \<open>RETRY_BACKOFF_MS\<close> times the number of the attempt and by the next attempt. The first
  attempt that succeeds returns its parsed body. After a third failure \<open>fetchJson\<close>
  throws an error with the URL and the failure of the third attempt.
\<close>

theorem fetchJson_retry_contract:
  "MAX_RETRIES = 3
   \<and> (\<forall>message. try_reply (Rejects message) = Inl (Thrown message))
   \<and> (\<forall>status statusText. try_reply (NotOk status statusText) = Inl (HttpStatus status statusText))
   \<and> (\<forall>data e. body.error data = Some e \<longrightarrow> try_reply (Body data) = Inl (MflError e))
   \<and> (\<forall>data. body.error data = None \<longrightarrow> try_reply (Body data) = Inr data)
   \<and> fetchJson net url w =
       (case try_reply (net (fetch_count w) url) of
          Inr data \<Rightarrow> (Inr data, w @ [Fetch url])
        | Inl first \<Rightarrow>
            (case try_reply (net (fetch_count w + 1) url) of
               Inr data \<Rightarrow> (Inr data, w @ [Fetch url, Delay (RETRY_BACKOFF_MS * 1), Fetch url])
             | Inl second \<Rightarrow>
                 (case try_reply (net (fetch_count w + 2) url) of
                    Inr data \<Rightarrow>
                      (Inr data,
                       w @ [Fetch url, Delay (RETRY_BACKOFF_MS * 1), Fetch url,
                            Delay (RETRY_BACKOFF_MS * 2), Fetch url])
                  | Inl third \<Rightarrow>
                      (Inl (FetchFailed 3 url third),
                       w @ [Fetch url, Delay (RETRY_BACKOFF_MS * 1), Fetch url,
                            Delay (RETRY_BACKOFF_MS * 2), Fetch url]))))
   \<and> fetch_count (snd (fetchJson net url w)) \<le> fetch_count w + 3"
proof (intro conjI allI impI)
  show "MAX_RETRIES = 3"
    by (simp add: MAX_RETRIES_def)
  show "try_reply (Rejects message) = Inl (Thrown message)" for message
    by (simp add: try_reply_def)
  show "try_reply (NotOk status statusText) = Inl (HttpStatus status statusText)" for status statusText
    by (simp add: try_reply_def)
  show "try_reply (Body data) = Inl (MflError e)" if "body.error data = Some e" for data e
    using that by (simp add: try_reply_def)
  show "try_reply (Body data) = Inr data" if "body.error data = None" for data
    using that by (simp add: try_reply_def)
  show "fetch_count (snd (fetchJson net url w)) \<le> fetch_count w + 3"
    using fetchJson_fetch_count [of w net url] by simp
  show "fetchJson net url w =
       (case try_reply (net (fetch_count w) url) of
          Inr data \<Rightarrow> (Inr data, w @ [Fetch url])
        | Inl first \<Rightarrow>
            (case try_reply (net (fetch_count w + 1) url) of
               Inr data \<Rightarrow> (Inr data, w @ [Fetch url, Delay (RETRY_BACKOFF_MS * 1), Fetch url])
             | Inl second \<Rightarrow>
                 (case try_reply (net (fetch_count w + 2) url) of
                    Inr data \<Rightarrow>
                      (Inr data,
                       w @ [Fetch url, Delay (RETRY_BACKOFF_MS * 1), Fetch url,
                            Delay (RETRY_BACKOFF_MS * 2), Fetch url])
                  | Inl third \<Rightarrow>
                      (Inl (FetchFailed 3 url third),
                       w @ [Fetch url, Delay (RETRY_BACKOFF_MS * 1), Fetch url,
                            Delay (RETRY_BACKOFF_MS * 2), Fetch url]))))"
    by (rule fetchJson_unrolled)
qed

theorem fetchJson_retry_contract_witness:
  "body.error (undefined_body\<lparr>error := Some ''API limit exceeded''\<rparr>) = Some ''API limit exceeded''
   \<and> fetchJson
        (\<lambda>n url. if n = 0 then NotOk 503 ''Service Unavailable''
                  else if n = 1 then Body (undefined_body\<lparr>error := Some ''API limit exceeded''\<rparr>)
                  else Rejects ''fetch failed'')
        ''https://www49.myfantasyleague.com/2021/export?L=13522&JSON=1&TYPE=auctionResults'' []
      = (Inl (FetchFailed 3
               ''https://www49.myfantasyleague.com/2021/export?L=13522&JSON=1&TYPE=auctionResults''
               (Thrown ''fetch failed'')),
         [Fetch ''https://www49.myfantasyleague.com/2021/export?L=13522&JSON=1&TYPE=auctionResults'',
          Delay 1500,
          Fetch ''https://www49.myfantasyleague.com/2021/export?L=13522&JSON=1&TYPE=auctionResults'',
          Delay 3000,
          Fetch ''https://www49.myfantasyleague.com/2021/export?L=13522&JSON=1&TYPE=auctionResults''])
   \<and> body.error undefined_body = None
   \<and> fetchJson (\<lambda>n url. if n = 0 then Rejects ''fetch failed'' else Body undefined_body)
        ''https://www49.myfantasyleague.com/2021/export?L=13522&JSON=1&TYPE=auctionResults'' []
      = (Inr undefined_body,
         [Fetch ''https://www49.myfantasyleague.com/2021/export?L=13522&JSON=1&TYPE=auctionResults'',
          Delay 1500,
          Fetch ''https://www49.myfantasyleague.com/2021/export?L=13522&JSON=1&TYPE=auctionResults''])"
proof -
  let ?url = "''https://www49.myfantasyleague.com/2021/export?L=13522&JSON=1&TYPE=auctionResults''"
  let ?limit = "undefined_body\<lparr>error := Some ''API limit exceeded''\<rparr>"
  let ?down = "\<lambda>(n::nat) (url::string). if n = 0 then NotOk 503 ''Service Unavailable''
                  else if n = 1 then Body ?limit else Rejects ''fetch failed''"
  let ?up = "\<lambda>(n::nat) (url::string). if n = 0 then Rejects ''fetch failed'' else Body undefined_body"
  have e: "body.error ?limit = Some ''API limit exceeded''" and n: "body.error undefined_body = None"
    by (simp_all add: undefined_body_def)
  note c = fetchJson_retry_contract
  from c e have l: "try_reply (Body ?limit) = Inl (MflError ''API limit exceeded'')"
    by blast
  from c n have u: "try_reply (Body undefined_body) = Inr undefined_body"
    by blast
  from c have r: "try_reply (Rejects ''fetch failed'') = Inl (Thrown ''fetch failed'')"
    and s: "try_reply (NotOk 503 ''Service Unavailable'') = Inl (HttpStatus 503 ''Service Unavailable'')"
    by blast+
  from fetchJson_retry_contract [of ?down ?url "[]"]
  have "fetchJson ?down ?url [] =
      (Inl (FetchFailed 3 ?url (Thrown ''fetch failed'')),
       [Fetch ?url, Delay 1500, Fetch ?url, Delay 3000, Fetch ?url])"
    by (simp add: l r s fetch_count_def RETRY_BACKOFF_MS_def)
  moreover from fetchJson_retry_contract [of ?up ?url "[]"]
  have "fetchJson ?up ?url [] = (Inr undefined_body, [Fetch ?url, Delay 1500, Fetch ?url])"
    by (simp add: u r fetch_count_def RETRY_BACKOFF_MS_def)
  ultimately show ?thesis
    using e n by blast
qed

section \<open>Properties of the run\<close>

lemma rankByPosition_tracked:
  assumes "tracked playerMap"
  shows "\<exists>ranked. rankByPosition salaryMap playerMap = Inr ranked"
proof -
  have "\<forall>m \<in> snd ` set playerMap. meta.position m \<notin> set object_prototype_keys"
  proof
    fix m
    assume "m \<in> snd ` set playerMap"
    with assms have "meta.position m \<in> set POSITIONS"
      unfolding tracked_def by blast
    then show "meta.position m \<notin> set object_prototype_keys"
      by (auto simp: POSITIONS_def object_prototype_keys_def)
  qed
  then show ?thesis
    by (rule rankByPosition_total)
qed

lemma String_nat_weeks: "String_nat 1 = ''1''" "String_nat 14 = ''14''"
  by simp_all

lemma agrees_Inl: "agrees (Inl err, w) run \<longleftrightarrow> run = (Inl err, w)"
  by (simp add: agrees_def)

lemma agrees_Inr: "agrees (Inr bodies, w) run \<longleftrightarrow> (\<exists>result. run = (Inr result, w))"
  by (simp add: agrees_def)

lemma fetch_all_Cons:
  "fetch_all net (url # urls) w =
     and_then (fetchJson net url w) (\<lambda>data w'.
       and_then (fetch_all net urls (delay REQUEST_DELAY_MS w')) (\<lambda>rest w''. (Inr (data # rest), w'')))"
  by (simp add: and_then_def split: prod.splits sum.splits)

lemma and_then_assoc:
  "and_then (and_then step f) g = and_then step (\<lambda>x w. and_then (f x w) g)"
  by (simp add: and_then_def split: prod.splits sum.splits)

lemma and_then_Inr: "and_then (Inr x, w) f = f x w"
  by (simp add: and_then_def)

lemma and_then_Inl: "and_then (Inl err, w) f = (Inl err, w)"
  by (simp add: and_then_def)

lemma agrees_and_then:
  assumes "\<And>x w. agrees (f x w) (g x w)"
  shows "agrees (and_then step f) (and_then step g)"
proof (cases step)
  case (Pair r w)
  then show ?thesis
    using assms by (cases r) (simp_all add: and_then_Inl and_then_Inr agrees_Inl)
qed

lemma rank_step_returns:
  "\<exists>ranked.
     (case rankByPosition salaryMap (players_playerMap players) of
        Inl e \<Rightarrow> (Inl (RankFailed e), w)
      | Inr ranked \<Rightarrow> (Inr ranked, w)) = (Inr ranked, w)"
proof -
  obtain ranked where "rankByPosition salaryMap (players_playerMap players) = Inr ranked"
    using rankByPosition_tracked [OF tracked_players_playerMap] by blast
  then show ?thesis
    by simp
qed

lemma collect_year_agrees:
  "agrees (fetch_all net (season_urls year) w) (collect_year net year w)"
  unfolding season_urls_def collect_year_def fetchRosters_def fetchAuctionResults_def
    fetchBbidTransactions_def fetchPlayerMetadata_def fetch_all_Cons and_then_assoc and_then_Inr
    String_nat_weeks
  by (intro agrees_and_then) (simp add: Let_def and_then_Inr agrees_Inr rank_step_returns)

lemma fetch_all_append:
  "fetch_all net (us @ vs) w =
     and_then (fetch_all net us w) (\<lambda>first w'.
       and_then (fetch_all net vs w') (\<lambda>rest w''. (Inr (first @ rest), w'')))"
proof (induction us arbitrary: w)
  case Nil
  show ?case
    by (simp add: and_then_def split: prod.splits sum.splits)
next
  case (Cons u us)
  show ?case
    unfolding append_Cons fetch_all_Cons Cons.IH and_then_assoc and_then_Inr
    by (simp add: and_then_def split: prod.splits sum.splits)
qed

lemma agrees_and_then_both:
  assumes "agrees requests run"
    and "\<And>x y w. agrees (f x w) (g y w)"
  shows "agrees (and_then requests f) (and_then run g)"
proof (cases requests)
  case (Pair r w)
  show ?thesis
  proof (cases r)
    case (Inl err)
    with Pair assms(1) show ?thesis
      by (simp add: agrees_Inl and_then_Inl)
  next
    case (Inr bodies)
    with Pair assms(1) obtain result where "run = (Inr result, w)"
      by (auto simp: agrees_Inr)
    with Pair Inr assms(2) show ?thesis
      by (simp add: and_then_Inr)
  qed
qed

lemma agrees_map_result:
  "agrees requests run \<Longrightarrow> agrees (and_then requests (\<lambda>x w. (Inr (h x), w))) run"
  by (cases requests) (auto simp: agrees_def and_then_def split: sum.splits)

lemma collect_years_agrees:
  "agrees (fetch_all net (concat (map season_urls years)) w) (collect_years net allData years w)"
proof (induction years arbitrary: w allData)
  case Nil
  show ?case
    by (simp add: agrees_Inr)
next
  case (Cons year years)
  show ?case
    unfolding list.map concat.simps fetch_all_append collect_years.simps
    by (intro agrees_and_then_both collect_year_agrees agrees_map_result Cons.IH)
qed

lemma collectAllData_agrees: "agrees (fetch_all net run_urls w) (collectAllData net w)"
  unfolding run_urls_def collectAllData_def by (rule collect_years_agrees)

lemma length_run_urls: "length run_urls = 25"
  by (simp add: run_urls_def YEARS_def season_urls_def)

lemma fetch_all_length:
  "fetch_all net urls w = (Inr bodies, w') \<Longrightarrow> length bodies = length urls"
proof (induction urls arbitrary: w bodies)
  case Nil
  then show ?case by simp
next
  case (Cons url urls)
  then show ?case
    by (auto split: prod.splits sum.splits)
qed

lemma written_append: "written (w @ v) \<longleftrightarrow> written w \<or> written v"
  by (simp add: written_def)

lemma written_delay: "written (delay ms w) \<longleftrightarrow> written w"
  by (simp add: delay_def written_def)

lemma fetchJson_written: "written (snd (fetchJson net url w)) \<longleftrightarrow> written w"
  unfolding fetchJson_unrolled
  by (simp add: written_def split: sum.splits)

lemma fetch_all_written: "written (snd (fetch_all net urls w)) \<longleftrightarrow> written w"
proof (induction urls arbitrary: w)
  case Nil
  show ?case by simp
next
  case (Cons url urls)
  obtain r w' where f: "fetchJson net url w = (r, w')"
    by (cases "fetchJson net url w")
  then have w': "written w' \<longleftrightarrow> written w"
    using fetchJson_written [of net url w] by simp
  show ?case
  proof (cases r)
    case (Inl err)
    with f w' show ?thesis by simp
  next
    case (Inr data)
    obtain r2 w2 where g: "fetch_all net urls (delay REQUEST_DELAY_MS w') = (r2, w2)"
      by (cases "fetch_all net urls (delay REQUEST_DELAY_MS w')")
    have "written (snd (fetch_all net urls (delay REQUEST_DELAY_MS w'))) \<longleftrightarrow> written w"
      by (simp add: Cons.IH written_delay w')
    then have "written w2 \<longleftrightarrow> written w"
      by (simp add: g)
    with f g Inr show ?thesis
      by (cases r2) simp_all
  qed
qed

lemma fetchJson_error:
  "fetchJson net url w = (Inl err, w') \<Longrightarrow> \<exists>failure. err = FetchFailed 3 url failure"
  unfolding fetchJson_unrolled
  by (auto split: sum.splits)

lemma fetch_all_error:
  "fetch_all net urls w = (Inl err, w') \<Longrightarrow> \<exists>url \<in> set urls. \<exists>failure. err = FetchFailed 3 url failure"
proof (induction urls arbitrary: w)
  case Nil
  then show ?case by simp
next
  case (Cons url urls)
  obtain r w1 where f: "fetchJson net url w = (r, w1)"
    by (cases "fetchJson net url w")
  show ?case
  proof (cases r)
    case (Inl e)
    with f Cons.prems have "fetchJson net url w = (Inl err, w')"
      by simp
    then show ?thesis
      using fetchJson_error by fastforce
  next
    case (Inr data)
    with f Cons.prems have "fetch_all net urls (delay REQUEST_DELAY_MS w1) = (Inl err, w')"
      by (simp split: prod.splits sum.splits)
    then show ?thesis
      using Cons.IH by fastforce
  qed
qed

text \<open>
  Claim C9. When a request of a run exhausts its retry budget, the error of \<open>fetchJson\<close>
  (with the URL of the request) is the error that \<open>collectAllData\<close> throws and that
  \<open>main\<close> reports, and nothing happens between the failure and the report: no further
  request, no retry, no later season. \<open>main\<close> then writes no workbook and exits with
  status 1. When all 25 requests succeed, \<open>collectAllData\<close> returns the report and
  \<open>main\<close> writes it, exiting with status 0 if the file system accepts the file. A run
  that writes the workbook is one whose 25 requests all succeeded.
\<close>

theorem fatal_fetch_failure_aborts:
  "(fetch_all net run_urls w = (Inl err, w') \<longrightarrow>
      (\<exists>url \<in> set run_urls. \<exists>failure. err = FetchFailed 3 url failure)
      \<and> collectAllData net w = (Inl err, w')
      \<and> main net timestamp writeFile w = (1, w' @ [ConsoleError err, Exit 1])
      \<and> (written (snd (main net timestamp writeFile w)) \<longleftrightarrow> written w))
   \<and> (fetch_all net run_urls w = (Inr bodies, w') \<longrightarrow>
        length bodies = 25
        \<and> (\<exists>allData.
              collectAllData net w = (Inr allData, w')
              \<and> main net timestamp writeFile w =
                  (case writeFile (''mfl-salary-top30-'' @ timestamp @ ''.xlsx'') of
                     None \<Rightarrow> (0, w' @ [WriteFile (''mfl-salary-top30-'' @ timestamp @ ''.xlsx'') allData])
                   | Some message \<Rightarrow> (1, w' @ [ConsoleError (WriteFailed message), Exit 1]))))
   \<and> (written (snd (main net timestamp writeFile w)) \<and> \<not> written w \<longrightarrow>
        fst (main net timestamp writeFile w) = 0
        \<and> (\<exists>bodies w'. fetch_all net run_urls w = (Inr bodies, w') \<and> length bodies = 25))"
proof -
  note a = collectAllData_agrees [of net w]
  have w: "written (snd (fetch_all net run_urls w)) \<longleftrightarrow> written w"
    by (rule fetch_all_written)
  have fail: "(\<exists>url \<in> set run_urls. \<exists>failure. e = FetchFailed 3 url failure)
      \<and> collectAllData net w = (Inl e, v)
      \<and> main net timestamp writeFile w = (1, v @ [ConsoleError e, Exit 1])
      \<and> (written (snd (main net timestamp writeFile w)) \<longleftrightarrow> written w)"
    if f: "fetch_all net run_urls w = (Inl e, v)" for e v
  proof -
    from a f have c: "collectAllData net w = (Inl e, v)"
      by (simp add: agrees_Inl)
    then have m: "main net timestamp writeFile w = (1, v @ [ConsoleError e, Exit 1])"
      by (simp add: main_def)
    from w f have "written v \<longleftrightarrow> written w"
      by simp
    then have "written (snd (main net timestamp writeFile w)) \<longleftrightarrow> written w"
      by (simp add: m written_append) (simp add: written_def)
    with fetch_all_error [OF f] c m show ?thesis
      by blast
  qed
  have ok: "length bs = 25
        \<and> (\<exists>allData.
              collectAllData net w = (Inr allData, v)
              \<and> main net timestamp writeFile w =
                  (case writeFile (''mfl-salary-top30-'' @ timestamp @ ''.xlsx'') of
                     None \<Rightarrow> (0, v @ [WriteFile (''mfl-salary-top30-'' @ timestamp @ ''.xlsx'') allData])
                   | Some message \<Rightarrow> (1, v @ [ConsoleError (WriteFailed message), Exit 1])))"
    if f: "fetch_all net run_urls w = (Inr bs, v)" for bs v
  proof -
    from a f obtain allData where c: "collectAllData net w = (Inr allData, v)"
      by (auto simp: agrees_Inr)
    then have "main net timestamp writeFile w =
        (case writeFile (''mfl-salary-top30-'' @ timestamp @ ''.xlsx'') of
           None \<Rightarrow> (0, v @ [WriteFile (''mfl-salary-top30-'' @ timestamp @ ''.xlsx'') allData])
         | Some message \<Rightarrow> (1, v @ [ConsoleError (WriteFailed message), Exit 1]))"
      by (simp only: main_def Let_def prod.case sum.case)
    with c fetch_all_length [OF f] length_run_urls show ?thesis
      by auto
  qed
  have only: "fst (main net timestamp writeFile w) = 0
        \<and> (\<exists>bodies w'. fetch_all net run_urls w = (Inr bodies, w') \<and> length bodies = 25)"
    if h: "written (snd (main net timestamp writeFile w)) \<and> \<not> written w"
  proof -
    obtain r v where f: "fetch_all net run_urls w = (r, v)"
      by (cases "fetch_all net run_urls w")
    show ?thesis
    proof (cases r)
      case (Inl e)
      with f fail h show ?thesis
        by blast
    next
      case (Inr bs)
      with f ok obtain allData where l: "length bs = 25" and
        m: "main net timestamp writeFile w =
            (case writeFile (''mfl-salary-top30-'' @ timestamp @ ''.xlsx'') of
               None \<Rightarrow> (0, v @ [WriteFile (''mfl-salary-top30-'' @ timestamp @ ''.xlsx'') allData])
             | Some message \<Rightarrow> (1, v @ [ConsoleError (WriteFailed message), Exit 1]))"
        by blast
      from w f have v: "written v \<longleftrightarrow> written w"
        by simp
      have "writeFile (''mfl-salary-top30-'' @ timestamp @ ''.xlsx'') = None"
      proof (rule ccontr)
        assume "writeFile (''mfl-salary-top30-'' @ timestamp @ ''.xlsx'') \<noteq> None"
        then obtain message where "writeFile (''mfl-salary-top30-'' @ timestamp @ ''.xlsx'') = Some message"
          by blast
        with m have "snd (main net timestamp writeFile w) = v @ [ConsoleError (WriteFailed message), Exit 1]"
          by simp
        then have "written (snd (main net timestamp writeFile w)) \<longleftrightarrow> written v"
          by (simp add: written_append) (simp add: written_def)
        with h v show False
          by simp
      qed
      with m have "fst (main net timestamp writeFile w) = 0"
        by simp
      with f Inr l show ?thesis
        by blast
    qed
  qed
  from fail ok only show ?thesis
    by blast
qed

lemma fetchJson_all_rejected:
  "fetchJson (\<lambda>n url. Rejects message) url w =
     (Inl (FetchFailed 3 url (Thrown message)),
      w @ [Fetch url, Delay 1500, Fetch url, Delay 3000, Fetch url])"
  unfolding fetchJson_unrolled
  by (simp add: try_reply_def RETRY_BACKOFF_MS_def)

lemma fetch_all_all_parsed:
  "fetch_all (\<lambda>n url. Body undefined_body) urls w =
     (Inr (replicate (length urls) undefined_body),
      w @ concat (map (\<lambda>url. [Fetch url, Delay 1000]) urls))"
proof (induction urls arbitrary: w)
  case Nil
  show ?case by simp
next
  case (Cons url urls)
  have "fetchJson (\<lambda>n url. Body undefined_body) url w = (Inr undefined_body, w @ [Fetch url])"
    unfolding fetchJson_unrolled by (simp add: try_reply_def undefined_body_def)
  then show ?case
    by (simp add: Cons.IH delay_def REQUEST_DELAY_MS_def)
qed

theorem fatal_fetch_failure_aborts_witness:
  "fetch_all (\<lambda>n url. Rejects ''fetch failed'') run_urls [] =
     (Inl (FetchFailed 3 (buildUrl 2021 [(''TYPE'', ''rosters''), (''W'', ''1'')]) (Thrown ''fetch failed'')),
      [Fetch (buildUrl 2021 [(''TYPE'', ''rosters''), (''W'', ''1'')]), Delay 1500,
       Fetch (buildUrl 2021 [(''TYPE'', ''rosters''), (''W'', ''1'')]), Delay 3000,
       Fetch (buildUrl 2021 [(''TYPE'', ''rosters''), (''W'', ''1'')])])
   \<and> main (\<lambda>n url. Rejects ''fetch failed'') ''2026-01-15'' (\<lambda>filename. None) [] =
     (1, [Fetch (buildUrl 2021 [(''TYPE'', ''rosters''), (''W'', ''1'')]), Delay 1500,
          Fetch (buildUrl 2021 [(''TYPE'', ''rosters''), (''W'', ''1'')]), Delay 3000,
          Fetch (buildUrl 2021 [(''TYPE'', ''rosters''), (''W'', ''1'')]),
          ConsoleError (FetchFailed 3 (buildUrl 2021 [(''TYPE'', ''rosters''), (''W'', ''1'')])
                          (Thrown ''fetch failed'')),
          Exit 1])
   \<and> fetch_all (\<lambda>n url. Body undefined_body) run_urls [] =
     (Inr (replicate 25 undefined_body), concat (map (\<lambda>url. [Fetch url, Delay 1000]) run_urls))
   \<and> (\<exists>allData.
        main (\<lambda>n url. Body undefined_body) ''2026-01-15'' (\<lambda>filename. None) [] =
          (0, concat (map (\<lambda>url. [Fetch url, Delay 1000]) run_urls)
                @ [WriteFile ''mfl-salary-top30-2026-01-15.xlsx'' allData]))"
proof -
  let ?down = "\<lambda>(n::nat) (url::string). Rejects ''fetch failed''"
  let ?up = "\<lambda>(n::nat) (url::string). Body undefined_body"
  let ?url = "buildUrl 2021 [(''TYPE'', ''rosters''), (''W'', ''1'')]"
  let ?err = "FetchFailed 3 ?url (Thrown ''fetch failed'')"
  let ?w = "[Fetch ?url, Delay 1500, Fetch ?url, Delay 3000, Fetch ?url]"
  let ?v = "concat (map (\<lambda>url. [Fetch url, Delay 1000]) run_urls)"
  have first: "run_urls = ?url # tl run_urls"
    by (simp add: run_urls_def YEARS_def season_urls_def)
  have f: "fetch_all ?down run_urls [] = (Inl ?err, ?w)"
    by (subst first) (simp add: fetchJson_all_rejected)
  have g: "fetch_all ?up run_urls [] = (Inr (replicate 25 undefined_body), ?v)"
    using fetch_all_all_parsed [of run_urls "[]"] by (simp add: length_run_urls)
  from fatal_fetch_failure_aborts [of ?down "[]" ?err ?w "''2026-01-15''" "\<lambda>filename. None"] f
  have m: "main ?down ''2026-01-15'' (\<lambda>filename. None) [] = (1, ?w @ [ConsoleError ?err, Exit 1])"
    by blast
  from fatal_fetch_failure_aborts [of ?up "[]" _ ?v "''2026-01-15''" "\<lambda>filename. None"
      "replicate 25 undefined_body"] g
  obtain allData where
    "main ?up ''2026-01-15'' (\<lambda>filename. None) [] =
       (case (\<lambda>filename. None) (''mfl-salary-top30-'' @ ''2026-01-15'' @ ''.xlsx'') of
          None \<Rightarrow> (0, ?v @ [WriteFile (''mfl-salary-top30-'' @ ''2026-01-15'' @ ''.xlsx'') allData])
        | Some message \<Rightarrow> (1, ?v @ [ConsoleError (WriteFailed message), Exit 1]))"
    by blast
  then have "main ?up ''2026-01-15'' (\<lambda>filename. None) [] =
       (0, ?v @ [WriteFile ''mfl-salary-top30-2026-01-15.xlsx'' allData])"
    by simp
  then have n: "\<exists>allData. main ?up ''2026-01-15'' (\<lambda>filename. None) [] =
       (0, ?v @ [WriteFile ''mfl-salary-top30-2026-01-15.xlsx'' allData])"
    by blast
  from f m g n show ?thesis
    by simp
qed

section \<open>The salary mappings of the extractors\<close>

text \<open>
  Every salary mapping that an extractor builds is a \<open>Map\<close> of positive amounts, and
  \<open>mergeInto\<close> keeps a target of non-negative amounts so: the mappings that
  \<open>collectAllData\<close> merges are those of claims C1 and C2.
\<close>

lemma non_negative_map_set:
  assumes "non_negative m" and "0 \<le> v"
  shows "non_negative (map_set m k v)"
  unfolding non_negative_def
proof
  fix x
  assume "x \<in> snd ` set (map_set m k v)"
  then obtain a where "(a, x) \<in> set (map_set m k v)"
    by auto
  then have "(a, x) = (k, v) \<or> (a, x) \<in> set m"
    using set_map_set [of m k v] by blast
  then have "x = v \<or> x \<in> snd ` set m"
    by force
  with assms show "0 \<le> x"
    unfolding non_negative_def by blast
qed

lemma record_amount:
  assumes "is_map m \<and> non_negative m" and "0 < amount"
  shows "is_map (map_set m k (max (or_zero (map_get m k)) amount))
       \<and> non_negative (map_set m k (max (or_zero (map_get m k)) amount))"
proof -
  have "0 \<le> max (or_zero (map_get m k)) amount"
    using assms(2) by (simp add: le_max_iff_disj less_imp_le)
  with assms(1) show ?thesis
    by (simp add: is_map_map_set non_negative_map_set)
qed

lemma roster_entry_salary_map:
  "is_map m \<and> non_negative m \<Longrightarrow> is_map (roster_entry m p) \<and> non_negative (roster_entry m p)"
  using record_amount [of m]
  by (simp add: roster_entry_def Let_def split: option.splits)

lemma auction_entry_salary_map:
  "is_map m \<and> non_negative m \<Longrightarrow> is_map (auction_entry m a) \<and> non_negative (auction_entry m a)"
  using record_amount [of m]
  by (simp add: auction_entry_def Let_def split: option.splits)

lemma foldl_invariant:
  "P m \<Longrightarrow> (\<And>m x. P m \<Longrightarrow> P (step m x)) \<Longrightarrow> P (foldl step m xs)"
  by (induction xs arbitrary: m) simp_all

lemma empty_salary_map: "is_map [] \<and> non_negative []"
  by (simp add: is_map_def non_negative_def)

lemma roster_salaryMap_salary_map:
  "is_map (roster_salaryMap franchises) \<and> non_negative (roster_salaryMap franchises)"
  unfolding roster_salaryMap_def
  by (intro foldl_invariant [where P = "\<lambda>m. is_map m \<and> non_negative m"]
      empty_salary_map roster_entry_salary_map)

lemma auction_salaryMap_salary_map:
  "is_map (auction_salaryMap auctions) \<and> non_negative (auction_salaryMap auctions)"
  unfolding auction_salaryMap_def
  by (intro foldl_invariant [where P = "\<lambda>m. is_map m \<and> non_negative m"]
      empty_salary_map auction_entry_salary_map)

lemma non_negative_mergeInto:
  "non_negative target \<Longrightarrow> non_negative (mergeInto target source)"
proof (induction source arbitrary: target)
  case Nil
  then show ?case by simp
next
  case (Cons e source)
  obtain playerId amount where e: "e = (playerId, amount)" by (cases e)
  have "0 \<le> or_zero (map_get target playerId)"
  proof (cases "map_get target playerId")
    case None
    then show ?thesis by (simp add: or_zero_None)
  next
    case (Some v)
    then have "v \<in> snd ` set target"
      by (force simp: map_get_def dest: map_of_SomeD)
    with Cons.prems have "0 \<le> v"
      unfolding non_negative_def by blast
    then show ?thesis
      by (simp add: Some or_zero_Some)
  qed
  then have "0 \<le> max (or_zero (map_get target playerId)) amount"
    by (simp add: le_max_iff_disj)
  with Cons.prems have "non_negative (map_set target playerId (max (or_zero (map_get target playerId)) amount))"
    by (rule non_negative_map_set)
  then show ?case
    by (simp add: e Cons.IH)
qed

lemma bbid_salaryMap_salary_map:
  "is_map (bbid_salaryMap transactions) \<and> non_negative (bbid_salaryMap transactions)"
  unfolding bbid_salaryMap_def bbid_salaryMap_mergeInto
  by (simp add: is_map_mergeInto non_negative_mergeInto empty_salary_map)

text \<open>
  The order of the entries of the merged \<open>Map\<close> is the order in which the sources first
  name the players, so it follows the order of the merges; claim C1 is about the keys and
  their amounts. \<open>rankByPosition\<close> breaks ties by this order.
\<close>

lemma merge_season_entry_order:
  "merge_season [(''13593'', Finite 425000)] [(''9988'', Finite 425000)] [] []
     = [(''13593'', Finite 425000), (''9988'', Finite 425000)]
   \<and> merge_season [(''9988'', Finite 425000)] [(''13593'', Finite 425000)] [] []
     = [(''9988'', Finite 425000), (''13593'', Finite 425000)]"
  by (simp add: merge_season_def map_get_def or_zero_def zero_number_def)

end
